theory Spec2Isabelle
  imports Main
begin

section \<open>JavaScript values\<close>

text \<open>
  The watchlist code is TypeScript, but the values it handles at run time are not bound by
  the declared types: the candidate passed to \<open>addToWatchlist\<close> is \<open>any\<close>, and
  \<open>JSON.parse\<close> returns whatever the stored text denotes. Values are therefore modelled
  dynamically. Numbers are the integer-valued ones (ids of the catalogue are integers);
  strings are lists of 8-bit characters; an object is the list of its properties in
  insertion order, with distinct keys.
\<close>

datatype jsval =
    Undefined
  | Null
  | Bool bool
  | Num int
  | Str string
  | Arr "jsval list"
  | Obj "(string \<times> jsval) list"

type_synonym props = "(string \<times> jsval) list"

text \<open>Reading property \<open>k\<close> of an object: \<open>undefined\<close> when the object has no such property.\<close>

fun lookup :: "props \<Rightarrow> string \<Rightarrow> jsval" where
  "lookup [] k = Undefined"
| "lookup ((k', v) # ps) k = (if k' = k then v else lookup ps k)"

text \<open>\<open>typeof v\<close>.\<close>

fun typeof :: "jsval \<Rightarrow> string" where
  "typeof Undefined = ''undefined''"
| "typeof Null = ''object''"
| "typeof (Bool b) = ''boolean''"
| "typeof (Num n) = ''number''"
| "typeof (Str s) = ''string''"
| "typeof (Arr vs) = ''object''"
| "typeof (Obj ps) = ''object''"

text \<open>Truthiness, and \<open>a || b\<close>: the left operand when it is truthy, else the right one.\<close>

fun truthy :: "jsval \<Rightarrow> bool" where
  "truthy Undefined = False"
| "truthy Null = False"
| "truthy (Bool b) = b"
| "truthy (Num n) = (n \<noteq> 0)"
| "truthy (Str s) = (s \<noteq> [])"
| "truthy (Arr vs) = True"
| "truthy (Obj ps) = True"

definition js_or :: "jsval \<Rightarrow> jsval \<Rightarrow> jsval" where
  "js_or a b = (if truthy a then a else b)"

subsection \<open>Decimal numerals\<close>

definition digit_char :: "nat \<Rightarrow> char" where
  "digit_char d = char_of (48 + d)"

definition is_digit :: "char \<Rightarrow> bool" where
  "is_digit c = (48 \<le> (of_char c :: nat) \<and> (of_char c :: nat) \<le> 57)"

definition digit_val :: "char \<Rightarrow> nat" where
  "digit_val c = of_char c - 48"

fun show_nat :: "nat \<Rightarrow> string" where
  "show_nat n = (if n < 10 then [digit_char n] else show_nat (n div 10) @ [digit_char (n mod 10)])"

declare show_nat.simps [simp del]

definition show_int :: "int \<Rightarrow> string" where
  "show_int i = (if i < 0 then CHR ''-'' # show_nat (nat (- i)) else show_nat (nat i))"

definition read_nat :: "string \<Rightarrow> nat" where
  "read_nat ds = foldl (\<lambda>a d. 10 * a + digit_val d) 0 ds"

subsection \<open>String coercion\<close>

text \<open>
  \<open>String(v)\<close>. An array is joined with commas, \<open>null\<close> and \<open>undefined\<close> elements
  giving the empty string; a plain object gives \<open>[object Object]\<close>.
\<close>

fun join_comma :: "string list \<Rightarrow> string" where
  "join_comma [] = []"
| "join_comma [s] = s"
| "join_comma (s # t # ss) = s @ CHR '','' # join_comma (t # ss)"

fun js_String :: "jsval \<Rightarrow> string" where
  "js_String Undefined = ''undefined''"
| "js_String Null = ''null''"
| "js_String (Bool b) = (if b then ''true'' else ''false'')"
| "js_String (Num n) = show_int n"
| "js_String (Str s) = s"
| "js_String (Arr vs) =
     join_comma (map (\<lambda>v. if v = Undefined \<or> v = Null then [] else js_String v) vs)"
| "js_String (Obj ps) = ''[object Object]''"

section \<open>JSON text\<close>

subsection \<open>\<open>JSON.stringify\<close>\<close>

definition dquote :: char where "dquote = CHR 0x22"
definition bslash :: char where "bslash = CHR 0x5C"

definition hex_char :: "nat \<Rightarrow> char" where
  "hex_char d = (if d < 10 then char_of (48 + d) else char_of (87 + d))"

definition escape_char :: "char \<Rightarrow> string" where
  "escape_char c =
     (if c = dquote then [bslash, dquote]
      else if c = bslash then [bslash, bslash]
      else if c = CHR 0x08 then [bslash, CHR ''b'']
      else if c = CHR 0x0C then [bslash, CHR ''f'']
      else if c = CHR 0x0A then [bslash, CHR ''n'']
      else if c = CHR 0x0D then [bslash, CHR ''r'']
      else if c = CHR 0x09 then [bslash, CHR ''t'']
      else if (of_char c :: nat) < 32 then
        [bslash, CHR ''u'', CHR ''0'', CHR ''0'',
         hex_char ((of_char c :: nat) div 16), hex_char ((of_char c :: nat) mod 16)]
      else [c])"

definition quote :: "string \<Rightarrow> string" where
  "quote s = dquote # concat (map escape_char s) @ [dquote]"

text \<open>
  A property whose value is \<open>undefined\<close> is left out of an object; an \<open>undefined\<close>
  array element is written \<open>null\<close>.
\<close>

definition stringify_member :: "string \<Rightarrow> string \<Rightarrow> string" where
  "stringify_member k t = quote k @ CHR '':'' # t"

function stringify :: "jsval \<Rightarrow> string" where
  "stringify Undefined = ''null''"
| "stringify Null = ''null''"
| "stringify (Bool b) = (if b then ''true'' else ''false'')"
| "stringify (Num n) = show_int n"
| "stringify (Str s) = quote s"
| "stringify (Arr vs) = CHR ''['' # join_comma (map stringify vs) @ '']''"
| "stringify (Obj ps) =
     CHR ''{'' # join_comma (map (\<lambda>p. stringify_member (fst p) (stringify (snd p)))
                              (filter (\<lambda>p. snd p \<noteq> Undefined) ps)) @ ''}''"
  by pat_completeness auto
termination
proof (relation "measure size")
  show "wf (measure (size :: jsval \<Rightarrow> nat))" by simp
next
  fix vs :: "jsval list" and v
  assume "v \<in> set vs"
  then have "size v < Suc (size_list size vs)"
    by (induction vs) auto
  then show "(v, Arr vs) \<in> measure size" by simp
next
  fix ps :: props and p
  assume "p \<in> set (filter (\<lambda>p. snd p \<noteq> Undefined) ps)"
  then have "p \<in> set ps" by simp
  then have "size (snd p) < size (Obj ps)"
    by (induction ps) auto
  then show "(snd p, Obj ps) \<in> measure size" by simp
qed

definition JSON_stringify :: "jsval \<Rightarrow> string" where
  "JSON_stringify v = stringify v"

subsection \<open>\<open>JSON.parse\<close>\<close>

text \<open>
  A recursive-descent parser for JSON text: whitespace between tokens, the literals, strings
  with their escapes, arrays and objects. A number with a fraction or an exponent and a
  unicode escape above \<open>00ff\<close> denote values outside \<^typ>\<open>jsval\<close> and are not accepted.
  The fuel bounds the number of nested calls; \<open>JSON_parse\<close> gives more than the length of
  the text. \<open>None\<close> is the \<open>SyntaxError\<close> that \<open>JSON.parse\<close> throws.
\<close>

definition is_ws :: "char \<Rightarrow> bool" where
  "is_ws c = (c = CHR '' '' \<or> c = CHR 0x09 \<or> c = CHR 0x0A \<or> c = CHR 0x0D)"

definition skip_ws :: "string \<Rightarrow> string" where
  "skip_ws s = dropWhile is_ws s"

definition unescape :: "char \<Rightarrow> char option" where
  "unescape e =
     (if e = dquote then Some dquote
      else if e = bslash then Some bslash
      else if e = CHR ''/'' then Some CHR ''/''
      else if e = CHR ''b'' then Some (CHR 0x08)
      else if e = CHR ''f'' then Some (CHR 0x0C)
      else if e = CHR ''n'' then Some (CHR 0x0A)
      else if e = CHR ''r'' then Some (CHR 0x0D)
      else if e = CHR ''t'' then Some (CHR 0x09)
      else None)"

definition hex_val :: "char \<Rightarrow> nat option" where
  "hex_val c =
     (let n = (of_char c :: nat) in
      if 48 \<le> n \<and> n \<le> 57 then Some (n - 48)
      else if 97 \<le> n \<and> n \<le> 102 then Some (n - 87)
      else if 65 \<le> n \<and> n \<le> 70 then Some (n - 55)
      else None)"

definition hex4 :: "char \<Rightarrow> char \<Rightarrow> char \<Rightarrow> char \<Rightarrow> char option" where
  "hex4 a b c d =
     (case (hex_val a, hex_val b, hex_val c, hex_val d) of
        (Some x, Some y, Some z, Some w) \<Rightarrow>
          (if x = 0 \<and> y = 0 then Some (char_of (16 * z + w)) else None)
      | _ \<Rightarrow> None)"

fun parse_chars :: "string \<Rightarrow> (string \<times> string) option" where
  "parse_chars [] = None"
| "parse_chars (c # cs) =
     (if c = dquote then Some ([], cs)
      else if c = bslash then
        (case cs of
           [] \<Rightarrow> None
         | e # cs' \<Rightarrow>
             if e = CHR ''u'' then
               (case cs' of
                  h1 # h2 # h3 # h4 # cs'' \<Rightarrow>
                    (case hex4 h1 h2 h3 h4 of
                       None \<Rightarrow> None
                     | Some ch \<Rightarrow> map_option (apfst ((#) ch)) (parse_chars cs''))
                | _ \<Rightarrow> None)
             else
               (case unescape e of
                  None \<Rightarrow> None
                | Some ch \<Rightarrow> map_option (apfst ((#) ch)) (parse_chars cs')))
      else if (of_char c :: nat) < 32 then None
      else map_option (apfst ((#) c)) (parse_chars cs))"

definition parse_number :: "string \<Rightarrow> (int \<times> string) option" where
  "parse_number s =
     (let neg = (s \<noteq> [] \<and> hd s = CHR ''-'');
          s1 = (if neg then tl s else s);
          ds = takeWhile is_digit s1;
          r = dropWhile is_digit s1
      in if ds = [] \<or> (length ds > 1 \<and> hd ds = CHR ''0'') then None
         else if r \<noteq> [] \<and> (hd r = CHR ''.'' \<or> hd r = CHR ''e'' \<or> hd r = CHR ''E'') then None
         else Some (if neg then - int (read_nat ds) else int (read_nat ds), r))"

definition parse_literal :: "string \<Rightarrow> jsval \<Rightarrow> string \<Rightarrow> (jsval \<times> string) option" where
  "parse_literal w v s = (if take (length w) s = w then Some (v, drop (length w) s) else None)"

text \<open>A repeated key of an object overwrites the earlier value in place.\<close>

fun obj_set :: "props \<Rightarrow> string \<Rightarrow> jsval \<Rightarrow> props" where
  "obj_set [] k v = [(k, v)]"
| "obj_set ((k', v') # ps) k v = (if k' = k then (k', v) # ps else (k', v') # obj_set ps k v)"

definition obj_of :: "props \<Rightarrow> props" where
  "obj_of ms = foldl (\<lambda>acc m. obj_set acc (fst m) (snd m)) [] ms"

fun parse_value :: "nat \<Rightarrow> string \<Rightarrow> (jsval \<times> string) option"
  and parse_elements :: "nat \<Rightarrow> string \<Rightarrow> (jsval list \<times> string) option"
  and parse_members :: "nat \<Rightarrow> string \<Rightarrow> (props \<times> string) option" where
  "parse_value 0 s = None"
| "parse_value (Suc n) s =
     (case skip_ws s of
        [] \<Rightarrow> None
      | c # r \<Rightarrow>
          if c = CHR ''['' then
            (case skip_ws r of
               [] \<Rightarrow> None
             | c' # r' \<Rightarrow>
                 if c' = CHR '']'' then Some (Arr [], r')
                 else map_option (apfst Arr) (parse_elements n r))
          else if c = CHR ''{'' then
            (case skip_ws r of
               [] \<Rightarrow> None
             | c' # r' \<Rightarrow>
                 if c' = CHR ''}'' then Some (Obj [], r')
                 else map_option (apfst (\<lambda>ms. Obj (obj_of ms))) (parse_members n r))
          else if c = dquote then map_option (apfst Str) (parse_chars r)
          else if c = CHR ''n'' then parse_literal ''ull'' Null r
          else if c = CHR ''t'' then parse_literal ''rue'' (Bool True) r
          else if c = CHR ''f'' then parse_literal ''alse'' (Bool False) r
          else map_option (apfst Num) (parse_number (c # r)))"
| "parse_elements 0 s = None"
| "parse_elements (Suc n) s =
     (case parse_value n s of
        None \<Rightarrow> None
      | Some (v, r) \<Rightarrow>
          (case skip_ws r of
             [] \<Rightarrow> None
           | c # r' \<Rightarrow>
               if c = CHR '','' then map_option (apfst ((#) v)) (parse_elements n r')
               else if c = CHR '']'' then Some ([v], r')
               else None))"
| "parse_members 0 s = None"
| "parse_members (Suc n) s =
     (case skip_ws s of
        [] \<Rightarrow> None
      | q # r \<Rightarrow>
          if q \<noteq> dquote then None
          else
            (case parse_chars r of
               None \<Rightarrow> None
             | Some (k, r1) \<Rightarrow>
                 (case skip_ws r1 of
                    [] \<Rightarrow> None
                  | c # r2 \<Rightarrow>
                      if c \<noteq> CHR '':'' then None
                      else
                        (case parse_value n r2 of
                           None \<Rightarrow> None
                         | Some (v, r3) \<Rightarrow>
                             (case skip_ws r3 of
                                [] \<Rightarrow> None
                              | c' # r4 \<Rightarrow>
                                  if c' = CHR '','' then
                                    map_option (apfst ((#) (k, v))) (parse_members n r4)
                                  else if c' = CHR ''}'' then Some ([(k, v)], r4)
                                  else None)))))"

definition JSON_parse :: "string \<Rightarrow> jsval option" where
  "JSON_parse s =
     (case parse_value (Suc (length s)) s of
        None \<Rightarrow> None
      | Some (v, r) \<Rightarrow> if skip_ws r = [] then Some v else None)"

section \<open>Exceptions and property reads\<close>

text \<open>
  A thrown value, as far as the code inspects it: whether it is an \<open>Error\<close>
  (\<open>error instanceof Error\<close>) and its \<open>name\<close>. A computation that may throw returns
  a sum, \<open>Inl\<close> the exception.
\<close>

datatype exn = Exn (instanceof_Error: bool) (exn_name: string)

definition TypeError :: exn where "TypeError = Exn True ''TypeError''"
definition SyntaxError :: exn where "SyntaxError = Exn True ''SyntaxError''"

text \<open>
  \<open>v.k\<close>, for the property names of this program. Reading a property of \<open>null\<close> or
  \<open>undefined\<close> throws a \<open>TypeError\<close>; a primitive or an array has none of these
  properties. \<open>field\<close> is the read on a value already known to be neither.
\<close>

fun field :: "jsval \<Rightarrow> string \<Rightarrow> jsval" where
  "field (Obj ps) k = lookup ps k"
| "field v k = Undefined"

definition nullish :: "jsval \<Rightarrow> bool" where
  "nullish v = (v = Undefined \<or> v = Null)"

definition get :: "jsval \<Rightarrow> string \<Rightarrow> exn + jsval" where
  "get v k = (if nullish v then Inl TypeError else Inr (field v k))"

section \<open>The durable store\<close>

text \<open>
  \<open>localStorage\<close>: the stored strings, and what the host does with an access. \<open>rejects k v\<close>
  is the exception \<open>setItem(k, v)\<close> throws, if the host refuses that write (quota
  exhausted, storage disabled); \<open>denied\<close> is the exception a read throws, if any.
\<close>

record storage =
  entries :: "string \<Rightarrow> string option"
  rejects :: "string \<Rightarrow> string \<Rightarrow> exn option"
  denied :: "exn option"

definition setItem :: "storage \<Rightarrow> string \<Rightarrow> string \<Rightarrow> exn + storage" where
  "setItem st k v =
     (case rejects st k v of
        Some e \<Rightarrow> Inl e
      | None \<Rightarrow> Inr (st\<lparr>entries := (entries st)(k \<mapsto> v)\<rparr>))"

definition getItem :: "storage \<Rightarrow> string \<Rightarrow> exn + string option" where
  "getItem st k = (case denied st of Some e \<Rightarrow> Inl e | None \<Rightarrow> Inr (entries st k))"

text \<open>A line written by \<open>console.error\<close>: the message, and the error passed along with it.\<close>

type_synonym log = "string \<times> exn option"

section \<open>The persistence helpers (\<open>utils/watchlist.ts\<close>)\<close>

text \<open>
  An item of the watchlist is an object; the collection is the array of them, as the
  state's type \<open>IWatchlistItem[]\<close> has it. The declared field types are not enforced at
  run time, so a field holds any value.
\<close>

type_synonym item = props

definition STORAGE_KEY :: string where
  "STORAGE_KEY = ''tmovies_watchlist''"

definition items_value :: "item list \<Rightarrow> jsval" where
  "items_value items = Arr (map Obj items)"

text \<open>
  \<open>saveWatchlist\<close>: the \<open>try\<close> block is \<open>saveWatchlist_try\<close>, the \<open>catch\<close> the case
  distinction on its exception. The result is the store after the call and the lines logged.
\<close>

definition saveWatchlist_try :: "storage \<Rightarrow> item list \<Rightarrow> exn + storage" where
  "saveWatchlist_try st items = setItem st STORAGE_KEY (JSON_stringify (items_value items))"

definition saveWatchlist :: "storage \<Rightarrow> item list \<Rightarrow> storage \<times> log list" where
  "saveWatchlist st items =
     (case saveWatchlist_try st items of
        Inr st' \<Rightarrow> (st', [])
      | Inl error \<Rightarrow>
          if instanceof_Error error \<and> exn_name error = ''QuotaExceededError''
          then (st, [(''Watchlist storage full. Please remove some items.'', None)])
          else (st, [(''Failed to save watchlist:'', Some error)]))"

text \<open>\<open>Array.prototype.every\<close> with a callback that may throw: it stops at the first \<open>false\<close>.\<close>

fun js_every :: "('a \<Rightarrow> exn + bool) \<Rightarrow> 'a list \<Rightarrow> exn + bool" where
  "js_every f [] = Inr True"
| "js_every f (x # xs) =
     (case f x of
        Inl e \<Rightarrow> Inl e
      | Inr b \<Rightarrow> if b then js_every f xs else Inr False)"

text \<open>The callback of \<open>validateWatchlistData\<close>: the chain of \<open>&&\<close>, left to right.\<close>

definition item_check :: "jsval \<Rightarrow> exn + bool" where
  "item_check item =
     (case get item ''id'' of
        Inl e \<Rightarrow> Inl e
      | Inr i \<Rightarrow>
          if typeof i \<noteq> ''string'' then Inr False
          else
            (case get item ''category'' of
               Inl e \<Rightarrow> Inl e
             | Inr c \<Rightarrow>
                 if typeof c \<noteq> ''string'' then Inr False
                 else if \<not> (c = Str ''movie'' \<or> c = Str ''tv'') then Inr False
                 else
                   (case get item ''title'' of
                      Inl e \<Rightarrow> Inl e
                    | Inr t \<Rightarrow> Inr (typeof t = ''string''))))"

definition validateWatchlistData :: "jsval \<Rightarrow> exn + bool" where
  "validateWatchlistData data =
     (case data of
        Arr vs \<Rightarrow> js_every item_check vs
      | _ \<Rightarrow> Inr False)"

text \<open>The parsed value returned as the collection: the elements of the array, as objects.\<close>

fun props_of :: "jsval \<Rightarrow> item" where
  "props_of (Obj ps) = ps"
| "props_of v = []"

fun items_of :: "jsval \<Rightarrow> item list" where
  "items_of (Arr vs) = map props_of vs"
| "items_of v = []"

text \<open>
  \<open>getWatchlist\<close>. \<open>!saved\<close> holds for \<open>null\<close> (nothing stored) and for the empty
  string.
\<close>

definition getWatchlist_try :: "storage \<Rightarrow> exn + item list" where
  "getWatchlist_try st =
     (case getItem st STORAGE_KEY of
        Inl e \<Rightarrow> Inl e
      | Inr saved \<Rightarrow>
          (case saved of
             None \<Rightarrow> Inr []
           | Some s \<Rightarrow>
               if s = [] then Inr []
               else
                 (case JSON_parse s of
                    None \<Rightarrow> Inl SyntaxError
                  | Some parsed \<Rightarrow>
                      (case validateWatchlistData parsed of
                         Inl e \<Rightarrow> Inl e
                       | Inr ok \<Rightarrow> Inr (if ok then items_of parsed else [])))))"

definition getWatchlist :: "storage \<Rightarrow> item list \<times> log list" where
  "getWatchlist st =
     (case getWatchlist_try st of
        Inr items \<Rightarrow> (items, [])
      | Inl error \<Rightarrow> ([], [(''Failed to load watchlist:'', Some error)]))"

section \<open>The provider (\<open>WatchlistProvider\<close>)\<close>

text \<open>
  The component's state as React holds it: \<open>watchlistItems\<close> is the value the current
  render and its closures see; \<open>pending\<close> are the arguments of the calls of
  \<open>setWatchlistItems\<close> made since that render, in order, each a function from the
  previous state to the next (a plain value \<open>v\<close> is the constant function).
\<close>

record provider =
  watchlistItems :: "item list"
  pending :: "(item list \<Rightarrow> item list) list"
  localStorage :: storage
  console :: "log list"

text \<open>The first render, with the state \<open>useState([])\<close>.\<close>

definition first_render :: "storage \<Rightarrow> provider" where
  "first_render st = \<lparr>watchlistItems = [], pending = [], localStorage = st, console = []\<rparr>"

text \<open>
  The two effects, in the order of their declaration. After the first render both run:
  the first loads and calls \<open>setWatchlistItems(saved)\<close>, the second saves the
  \<open>watchlistItems\<close> of that render.
\<close>

definition load_effect :: "provider \<Rightarrow> provider" where
  "load_effect p =
     (let (saved, lines) = getWatchlist (localStorage p)
      in p\<lparr>pending := pending p @ [\<lambda>prev. saved], console := console p @ lines\<rparr>)"

definition save_effect :: "provider \<Rightarrow> provider" where
  "save_effect p =
     (let (st, lines) = saveWatchlist (localStorage p) (watchlistItems p)
      in p\<lparr>localStorage := st, console := console p @ lines\<rparr>)"

definition mount_effects :: "provider \<Rightarrow> provider" where
  "mount_effects p = save_effect (load_effect p)"

text \<open>
  React processes the pending updates and renders again. Every update of this component
  produces a new array, so the dependency \<open>[watchlistItems]\<close> of the second effect has
  changed and the effect runs. With nothing pending there is no render.
\<close>

definition commit :: "provider \<Rightarrow> provider" where
  "commit p =
     (if pending p = [] then p
      else save_effect
             (p\<lparr>watchlistItems := foldl (\<lambda>prev f. f prev) (watchlistItems p) (pending p),
                pending := []\<rparr>))"

definition mount :: "storage \<Rightarrow> provider" where
  "mount st = commit (mount_effects (first_render st))"

subsection \<open>The operations\<close>

definition item_id :: "item \<Rightarrow> jsval" where
  "item_id item = lookup item ''id''"

text \<open>The object literal of \<open>addToWatchlist\<close>; \<open>now\<close> is \<open>new Date().toISOString()\<close>.\<close>

definition newItem :: "string \<Rightarrow> jsval \<Rightarrow> item" where
  "newItem now movie =
     [(''id'', Str (js_String (field movie ''id''))),
      (''category'', js_or (field movie ''category'') (Str ''movie'')),
      (''poster_path'', field movie ''poster_path''),
      (''title'', js_or (js_or (field movie ''original_title'') (field movie ''name''))
                        (field movie ''title'')),
      (''original_title'', js_or (field movie ''original_title'') (Str [])),
      (''name'', js_or (field movie ''name'') (Str [])),
      (''overview'', field movie ''overview''),
      (''backdrop_path'', field movie ''backdrop_path''),
      (''addedAt'', Str now)]"

text \<open>
  \<open>addToWatchlist\<close>, run in a render whose state is \<open>items\<close>: it throws, or returns
  without an update (\<open>None\<close>), or calls \<open>setWatchlistItems\<close> with the update returned.
\<close>

definition addToWatchlist ::
  "string \<Rightarrow> jsval \<Rightarrow> item list \<Rightarrow> exn + (item list \<Rightarrow> item list) option" where
  "addToWatchlist now movie items =
     (case get movie ''id'' of
        Inl e \<Rightarrow> Inl e
      | Inr i \<Rightarrow>
          (let movieId = js_String i in
           if list_ex (\<lambda>item. item_id item = Str movieId) items then Inr None
           else Inr (Some (\<lambda>prev. newItem now movie # prev))))"

definition removeFromWatchlist :: "jsval \<Rightarrow> item list \<Rightarrow> item list" where
  "removeFromWatchlist id' =
     (let idString = js_String id'
      in (\<lambda>prev. filter (\<lambda>item. item_id item \<noteq> Str idString) prev))"

definition isInWatchlist :: "item list \<Rightarrow> jsval \<Rightarrow> bool" where
  "isInWatchlist items id' =
     (let idString = js_String id'
      in list_ex (\<lambda>item. item_id item = Str idString) items)"

definition clearWatchlist :: "item list \<Rightarrow> item list" where
  "clearWatchlist = (\<lambda>prev. [])"

text \<open>
  A call of one of the context's functions by a collaborator, in the current render. An
  exception goes to the caller and leaves the component's state as it was.
\<close>

datatype call =
    AddToWatchlist string jsval
  | RemoveFromWatchlist jsval
  | ClearWatchlist

fun invoke :: "call \<Rightarrow> provider \<Rightarrow> provider" where
  "invoke (AddToWatchlist now movie) p =
     (case addToWatchlist now movie (watchlistItems p) of
        Inl e \<Rightarrow> p
      | Inr None \<Rightarrow> p
      | Inr (Some f) \<Rightarrow> p\<lparr>pending := pending p @ [f]\<rparr>)"
| "invoke (RemoveFromWatchlist id') p = p\<lparr>pending := pending p @ [removeFromWatchlist id']\<rparr>"
| "invoke ClearWatchlist p = p\<lparr>pending := pending p @ [clearWatchlist]\<rparr>"

text \<open>
  An operation of the store run to completion: the call, then the render that commits its
  update, as between two events of the user interface. The statements about sequences of
  operations are about these; calls made from one render all see the collection of that
  render.
\<close>

definition operation :: "call \<Rightarrow> provider \<Rightarrow> provider" where
  "operation c p = commit (invoke c p)"

definition operations :: "call list \<Rightarrow> provider \<Rightarrow> provider" where
  "operations cs p = fold operation cs p"

section \<open>The schema in the words of the specification\<close>

text \<open>
  A valid candidate is a sequence in which every element has a string \<open>id\<close>, a
  \<open>category\<close> that is exactly \<open>movie\<close> or \<open>tv\<close>, and a string \<open>title\<close>.
\<close>

definition spec_item_valid :: "jsval \<Rightarrow> bool" where
  "spec_item_valid v =
     (case v of
        Obj ps \<Rightarrow>
          typeof (lookup ps ''id'') = ''string''
          \<and> (lookup ps ''category'' = Str ''movie'' \<or> lookup ps ''category'' = Str ''tv'')
          \<and> typeof (lookup ps ''title'') = ''string''
      | _ \<Rightarrow> False)"

definition spec_valid :: "jsval \<Rightarrow> bool" where
  "spec_valid v = (case v of Arr vs \<Rightarrow> list_all spec_item_valid vs | _ \<Rightarrow> False)"

section \<open>Example stores, payloads and candidates\<close>

text \<open>
  A store with nothing in it that accepts every access, a store holding a given text under
  the watchlist's key, and a store whose quota is exhausted.
\<close>

definition empty_storage :: storage where
  "empty_storage = \<lparr>entries = (\<lambda>k. None), rejects = (\<lambda>k v. None), denied = None\<rparr>"

definition stored :: "string \<Rightarrow> storage" where
  "stored text = empty_storage\<lparr>entries := (\<lambda>k. if k = STORAGE_KEY then Some text else None)\<rparr>"

definition quota_full :: storage where
  "quota_full = empty_storage\<lparr>rejects := (\<lambda>k v. Some (Exn True ''QuotaExceededError''))\<rparr>"

text \<open>An item as a stored payload has it, three payloads, and candidates as a collaborator passes them.\<close>

definition example_item :: item where
  "example_item = [(''id'', Str ''1''), (''category'', Str ''movie''), (''title'', Str ''Inception'')]"

definition payload_one :: string where
  \<open>payload_one = ''[{"id":"1","category":"movie","title":"Inception"}]''\<close>

definition payload_42 :: string where
  \<open>payload_42 = ''[{"id":"42","category":"tv","title":"Dark"}]''\<close>

definition payload_twice :: string where
  \<open>payload_twice = ''[{"id":"1","category":"movie","title":"Inception"},{"id":"1","category":"tv","title":"Dark"}]''\<close>

definition candidate_a :: jsval where
  "candidate_a = Obj [(''id'', Num 1), (''original_title'', Str ''Inception''),
     (''poster_path'', Str ''/a.jpg''), (''overview'', Str ''dreams''), (''backdrop_path'', Str ''/b.jpg'')]"

definition candidate_b :: jsval where
  "candidate_b = Obj [(''id'', Str ''2''), (''category'', Str ''tv''), (''name'', Str ''Dark''),
     (''poster_path'', Str ''/c.jpg''), (''overview'', Str ''caves''), (''backdrop_path'', Str ''/d.jpg'')]"

definition candidate_no_backdrop :: jsval where
  "candidate_no_backdrop = Obj [(''id'', Num 7), (''name'', Str ''Dark''),
     (''poster_path'', Str ''/c.jpg''), (''overview'', Str ''caves'')]"

definition candidate_untitled :: jsval where
  "candidate_untitled = Obj [(''id'', Num 7), (''category'', Str ''movie''),
     (''poster_path'', Str ''/c.jpg''), (''overview'', Str ''caves''), (''backdrop_path'', Str ''/d.jpg'')]"

text \<open>A store that the host has disabled: every access throws.\<close>

definition storage_disabled :: storage where
  "storage_disabled =
     empty_storage\<lparr>rejects := (\<lambda>k v. Some (Exn True ''SecurityError'')),
                   denied := Some (Exn True ''SecurityError'')\<rparr>"

text \<open>A value that is a string, or that \<open>||\<close> replaces by its right operand.\<close>

definition string_or_falsy :: "jsval \<Rightarrow> bool" where
  "string_or_falsy v = (typeof v = ''string'' \<or> \<not> truthy v)"

section \<open>JSON values and the round trip through text\<close>

text \<open>
  The values that JSON text denotes: no \<open>undefined\<close> anywhere, and objects with
  distinct keys.
\<close>

fun json :: "jsval \<Rightarrow> bool" where
  "json Undefined = False"
| "json Null = True"
| "json (Bool b) = True"
| "json (Num n) = True"
| "json (Str s) = True"
| "json (Arr vs) = list_all json vs"
| "json (Obj ps) = (distinct (map fst ps) \<and> list_all (\<lambda>p. json (snd p)) ps)"

text \<open>What may follow a value in JSON text, and what a value may start with.\<close>

definition delimited :: "string \<Rightarrow> bool" where
  "delimited r = (r = [] \<or> hd r = CHR '','' \<or> hd r = CHR '']'' \<or> hd r = CHR ''}'')"

definition value_start :: "char \<Rightarrow> bool" where
  "value_start c = (\<not> is_ws c \<and> c \<noteq> CHR '','' \<and> c \<noteq> CHR '']'' \<and> c \<noteq> CHR ''}'')"

subsection \<open>Numerals\<close>

lemma is_digit_digit_char: "d < 10 \<Longrightarrow> is_digit (digit_char d)"
  by (simp add: is_digit_def digit_char_def)

lemma digit_val_digit_char: "d < 10 \<Longrightarrow> digit_val (digit_char d) = d"
  by (simp add: digit_val_def digit_char_def)

lemma char_eq_iff: "c = d \<longleftrightarrow> (of_char c :: nat) = of_char d"
  by simp

lemma digit_char_eq_zero: "d < 10 \<Longrightarrow> digit_char d = CHR ''0'' \<longleftrightarrow> d = 0"
  by (simp add: digit_char_def char_eq_iff)

lemma show_nat_digits: "\<forall>c\<in>set (show_nat n). is_digit c"
  by (induction n rule: show_nat.induct) (subst show_nat.simps, simp add: is_digit_digit_char)

lemma show_nat_nonempty: "show_nat n \<noteq> []"
  by (subst show_nat.simps) simp

lemma read_nat_snoc: "read_nat (ds @ [d]) = 10 * read_nat ds + digit_val d"
  by (simp add: read_nat_def)

lemma read_show_nat: "read_nat (show_nat n) = n"
proof (induction n rule: show_nat.induct)
  case (1 n)
  show ?case
  proof (cases "n < 10")
    case True
    then show ?thesis
      by (subst show_nat.simps) (simp add: read_nat_def digit_val_digit_char)
  next
    case False
    with 1 have "read_nat (show_nat (n div 10)) = n div 10" by simp
    with False show ?thesis
      by (subst show_nat.simps) (simp add: read_nat_snoc digit_val_digit_char)
  qed
qed

lemma hd_show_nat: "hd (show_nat n) = CHR ''0'' \<Longrightarrow> n = 0"
proof (induction n rule: show_nat.induct)
  case (1 n)
  show ?case
  proof (cases "n < 10")
    case True
    with 1(2) show ?thesis
      by (subst (asm) show_nat.simps) (simp add: digit_char_eq_zero)
  next
    case False
    with 1(2) have "hd (show_nat (n div 10)) = CHR ''0''"
      by (subst (asm) show_nat.simps) (simp add: show_nat_nonempty)
    with 1(1) False have "n div 10 = 0" by simp
    with False show ?thesis by simp
  qed
qed

lemma show_nat_zero: "show_nat 0 = ''0''"
  by (subst show_nat.simps) (simp add: digit_char_def char_eq_iff)

lemma show_nat_no_leading_zero: "1 < length (show_nat n) \<Longrightarrow> hd (show_nat n) \<noteq> CHR ''0''"
  using hd_show_nat [of n] show_nat_zero by auto

lemma delimited_not_digit: "delimited r \<Longrightarrow> r \<noteq> [] \<Longrightarrow> \<not> is_digit (hd r)"
  by (auto simp: delimited_def is_digit_def)

lemma takeWhile_digits:
  assumes "delimited r"
  shows "takeWhile is_digit (show_nat n @ r) = show_nat n"
proof -
  have "takeWhile is_digit r = []"
    using delimited_not_digit [OF assms] by (cases r) auto
  then show ?thesis
    using show_nat_digits [of n] by (simp add: takeWhile_append2)
qed

lemma dropWhile_digits:
  assumes "delimited r"
  shows "dropWhile is_digit (show_nat n @ r) = r"
proof -
  have "dropWhile is_digit r = r"
    using delimited_not_digit [OF assms] by (cases r) auto
  then show ?thesis
    using show_nat_digits [of n] by (simp add: dropWhile_append2)
qed

lemma hd_show_nat_digit: "is_digit (hd (show_nat n))"
  using show_nat_digits [of n] show_nat_nonempty [of n] by (cases "show_nat n") auto

lemma hd_show_nat_not_minus: "hd (show_nat n) \<noteq> CHR ''-''"
  using hd_show_nat_digit [of n] by (auto simp: is_digit_def)

lemma delimited_no_fraction:
  "delimited r \<Longrightarrow> \<not> (r \<noteq> [] \<and> (hd r = CHR ''.'' \<or> hd r = CHR ''e'' \<or> hd r = CHR ''E''))"
  by (auto simp: delimited_def)

lemma parse_number_show_nat:
  assumes "delimited r"
  shows "parse_number (show_nat n @ r) = Some (int n, r)"
proof -
  have "show_nat n @ r \<noteq> []" by (simp add: show_nat_nonempty)
  moreover have "hd (show_nat n @ r) \<noteq> CHR ''-''"
    by (simp add: show_nat_nonempty hd_show_nat_not_minus)
  ultimately show ?thesis
    using show_nat_no_leading_zero [of n] delimited_no_fraction [OF assms]
    by (simp add: parse_number_def Let_def takeWhile_digits [OF assms]
        dropWhile_digits [OF assms] show_nat_nonempty read_show_nat)
qed

lemma parse_number_show_int:
  assumes "delimited r"
  shows "parse_number (show_int i @ r) = Some (i, r)"
proof (cases "i < 0")
  case True
  then show ?thesis
    using show_nat_no_leading_zero [of "nat (- i)"] delimited_no_fraction [OF assms]
    by (simp add: show_int_def parse_number_def Let_def takeWhile_digits [OF assms]
        dropWhile_digits [OF assms] show_nat_nonempty read_show_nat)
next
  case False
  then show ?thesis
    by (simp add: show_int_def parse_number_show_nat [OF assms])
qed

subsection \<open>Strings\<close>

lemma hex_val_hex_char: "d < 16 \<Longrightarrow> hex_val (hex_char d) = Some d"
  by (simp add: hex_val_def hex_char_def Let_def)

lemma hex4_control:
  assumes "(of_char c :: nat) < 32"
  shows "hex4 CHR ''0'' CHR ''0'' (hex_char ((of_char c :: nat) div 16)) (hex_char ((of_char c :: nat) mod 16)) = Some c"
proof -
  have z: "hex_val CHR ''0'' = Some 0" by (simp add: hex_val_def)
  have "(of_char c :: nat) div 16 < 16" using assms by simp
  then show ?thesis
    by (simp add: hex4_def z hex_val_hex_char)
qed

lemma parse_chars_escape:
  "parse_chars (escape_char c @ t) = map_option (apfst ((#) c)) (parse_chars t)"
proof -
  consider (short) "c = dquote \<or> c = bslash \<or> c = CHR 0x08 \<or> c = CHR 0x0C \<or> c = CHR 0x0A \<or> c = CHR 0x0D \<or> c = CHR 0x09"
    | (control) "c \<noteq> dquote" "c \<noteq> bslash" "c \<noteq> CHR 0x08" "c \<noteq> CHR 0x0C" "c \<noteq> CHR 0x0A" "c \<noteq> CHR 0x0D" "c \<noteq> CHR 0x09" "(of_char c :: nat) < 32"
    | (plain) "c \<noteq> dquote" "c \<noteq> bslash" "\<not> (of_char c :: nat) < 32"
    by blast
  then show ?thesis
  proof cases
    case short
    then show ?thesis
      by (auto simp: escape_char_def unescape_def dquote_def bslash_def)
  next
    case control
    then show ?thesis
      by (simp add: escape_char_def hex4_control dquote_def bslash_def)
  next
    case plain
    then have "escape_char c = [c]"
      by (auto simp: escape_char_def)
    with plain show ?thesis by simp
  qed
qed

lemma parse_chars_quote_body:
  "parse_chars (concat (map escape_char s) @ dquote # r) = Some (s, r)"
  by (induction s) (simp_all add: parse_chars_escape)

lemma parse_chars_quote: "parse_chars (tl (quote s) @ r) = Some (s, r)"
  by (simp add: quote_def parse_chars_quote_body)

subsection \<open>Values\<close>

lemma skip_ws_Cons: "\<not> is_ws c \<Longrightarrow> skip_ws (c # s) = c # s"
  by (simp add: skip_ws_def)

lemma show_int_starts: "\<exists>c t. show_int i = c # t \<and> (c = CHR ''-'' \<or> is_digit c)"
proof (cases "i < 0")
  case True
  then show ?thesis by (simp add: show_int_def)
next
  case False
  obtain c t where "show_nat (nat i) = c # t"
    using show_nat_nonempty [of "nat i"] by (cases "show_nat (nat i)") auto
  moreover from this have "is_digit c"
    using hd_show_nat_digit [of "nat i"] by simp
  ultimately show ?thesis using False by (simp add: show_int_def)
qed

lemma stringify_starts: "\<exists>c t. stringify v = c # t \<and> value_start c"
proof (cases v)
  case (Num i)
  obtain c t where "show_int i = c # t" "c = CHR ''-'' \<or> is_digit c"
    using show_int_starts by blast
  then show ?thesis using Num
    by (auto simp: value_start_def is_ws_def is_digit_def)
qed (auto simp: value_start_def is_ws_def quote_def dquote_def)

lemma number_start:
  assumes "c = CHR ''-'' \<or> is_digit c"
  shows "\<not> is_ws c" "c \<noteq> CHR ''[''" "c \<noteq> CHR ''{''" "c \<noteq> dquote"
    "c \<noteq> CHR ''n''" "c \<noteq> CHR ''t''" "c \<noteq> CHR ''f''"
  using assms by (auto simp: is_digit_def is_ws_def dquote_def)

lemma dquote_not_bracket: "dquote \<noteq> CHR ''[''" "dquote \<noteq> CHR ''{''"
  by (simp_all add: dquote_def)

lemma quote_starts: "\<exists>t. quote s = dquote # t"
  by (simp add: quote_def)

lemma delimited_simps:
  "delimited []" "delimited (CHR '','' # s)" "delimited (CHR '']'' # s)" "delimited (CHR ''}'' # s)"
  by (simp_all add: delimited_def)

lemma not_ws_delims: "\<not> is_ws CHR '',''" "\<not> is_ws CHR '']''" "\<not> is_ws CHR ''}''" "\<not> is_ws CHR '':''"
  "\<not> is_ws dquote"
  by (simp_all add: is_ws_def dquote_def)

lemma parse_elements_stringify:
  assumes IH: "\<And>v n r. v \<in> set vs \<Longrightarrow> delimited r \<Longrightarrow> size v < n \<Longrightarrow>
                 parse_value n (stringify v @ r) = Some (v, r)"
    and "vs \<noteq> []" and "size (Arr vs) \<le> n"
  shows "parse_elements n (join_comma (map stringify vs) @ CHR '']'' # r) = Some (vs, r)"
  using assms
proof (induction vs arbitrary: n)
  case Nil
  then show ?case by simp
next
  case (Cons v vs)
  from Cons.prems(3) obtain m where n: "n = Suc m" and m: "size v < m" "vs \<noteq> [] \<Longrightarrow> size (Arr vs) \<le> m"
    by (cases n) auto
  show ?case
  proof (cases vs)
    case Nil
    have "parse_value m (stringify v @ CHR '']'' # r) = Some (v, CHR '']'' # r)"
      using Cons.prems(1) [of v, OF _ _ m(1)] by (simp add: delimited_simps)
    then show ?thesis using Nil n
      by (simp add: skip_ws_Cons not_ws_delims)
  next
    case more: (Cons w ws)
    let ?tail = "join_comma (map stringify vs) @ CHR '']'' # r"
    have tl: "parse_elements m ?tail = Some (vs, r)"
      using Cons.IH [of m] Cons.prems(1) m(2) more by simp
    have "parse_value m (stringify v @ CHR '','' # ?tail) = Some (v, CHR '','' # ?tail)"
      using Cons.prems(1) [of v, OF _ _ m(1)] by (simp add: delimited_simps)
    then show ?thesis using more n tl
      by (simp add: skip_ws_Cons not_ws_delims)
  qed
qed

lemma parse_members_stringify:
  assumes IH: "\<And>p n r. p \<in> set ps \<Longrightarrow> delimited r \<Longrightarrow> size (snd p) < n \<Longrightarrow>
                 parse_value n (stringify (snd p) @ r) = Some (snd p, r)"
    and "ps \<noteq> []" and "size (Obj ps) \<le> n"
  shows "parse_members n
           (join_comma (map (\<lambda>p. stringify_member (fst p) (stringify (snd p))) ps) @ CHR ''}'' # r)
         = Some (ps, r)"
  using assms
proof (induction ps arbitrary: n)
  case Nil
  then show ?case by simp
next
  case (Cons p ps)
  from Cons.prems(3) obtain m where n: "n = Suc m" and m: "size (snd p) < m" "ps \<noteq> [] \<Longrightarrow> size (Obj ps) \<le> m"
    by (cases n; cases p) auto
  show ?case
  proof (cases ps)
    case Nil
    have "parse_value m (stringify (snd p) @ CHR ''}'' # r) = Some (snd p, CHR ''}'' # r)"
      using Cons.prems(1) [of p, OF _ _ m(1)] by (simp add: delimited_simps)
    then show ?thesis using Nil n
      by (simp add: stringify_member_def quote_def skip_ws_Cons not_ws_delims parse_chars_quote_body)
  next
    case more: (Cons w ws)
    let ?tail = "join_comma (map (\<lambda>p. stringify_member (fst p) (stringify (snd p))) ps) @ CHR ''}'' # r"
    have tl: "parse_members m ?tail = Some (ps, r)"
      using Cons.IH [of m] Cons.prems(1) m(2) more by simp
    have "parse_value m (stringify (snd p) @ CHR '','' # ?tail) = Some (snd p, CHR '','' # ?tail)"
      using Cons.prems(1) [of p, OF _ _ m(1)] by (simp add: delimited_simps)
    then show ?thesis using more n tl
      by (simp add: stringify_member_def quote_def skip_ws_Cons not_ws_delims parse_chars_quote_body)
  qed
qed

lemma obj_set_fresh: "k \<notin> fst ` set ps \<Longrightarrow> obj_set ps k v = ps @ [(k, v)]"
  by (induction ps) auto

lemma foldl_obj_set_distinct:
  "distinct (map fst (acc @ ms)) \<Longrightarrow>
   foldl (\<lambda>acc m. obj_set acc (fst m) (snd m)) acc ms = acc @ ms"
proof (induction ms arbitrary: acc)
  case Nil
  then show ?case by simp
next
  case (Cons m ms)
  then have "fst m \<notin> fst ` set acc" by auto
  then have "obj_set acc (fst m) (snd m) = acc @ [m]"
    by (simp add: obj_set_fresh)
  moreover have "distinct (map fst ((acc @ [m]) @ ms))" using Cons.prems by simp
  ultimately show ?case using Cons.IH [of "acc @ [m]"] by simp
qed

lemma obj_of_distinct: "distinct (map fst ps) \<Longrightarrow> obj_of ps = ps"
  using foldl_obj_set_distinct [of "[]" ps] by (simp add: obj_of_def)

lemma json_not_Undefined: "json v \<Longrightarrow> v \<noteq> Undefined"
  by auto

lemma parse_value_stringify:
  "json v \<Longrightarrow> delimited r \<Longrightarrow> size v < n \<Longrightarrow> parse_value n (stringify v @ r) = Some (v, r)"
proof (induction v arbitrary: n r)
  case Undefined
  then show ?case by simp
next
  case Null
  then obtain m where "n = Suc m" by (cases n) auto
  then show ?case
    by (simp add: skip_ws_Cons is_ws_def dquote_def parse_literal_def)
next
  case (Bool b)
  then obtain m where "n = Suc m" by (cases n) auto
  then show ?case
    by (simp add: skip_ws_Cons is_ws_def dquote_def parse_literal_def)
next
  case (Num i)
  then obtain m where n: "n = Suc m" by (cases n) auto
  obtain c t where c: "show_int i = c # t" "c = CHR ''-'' \<or> is_digit c"
    using show_int_starts by blast
  have "parse_number (c # t @ r) = Some (i, r)"
    using parse_number_show_int [OF Num.prems(2), of i] c(1) by simp
  with c n show ?case
    by (simp add: skip_ws_Cons number_start [OF c(2)])
next
  case (Str s)
  then obtain m where n: "n = Suc m" by (cases n) auto
  with n show ?case
    by (simp add: quote_def skip_ws_Cons not_ws_delims dquote_not_bracket parse_chars_quote_body)
next
  case (Arr vs)
  then obtain m where n: "n = Suc m" and m: "size (Arr vs) \<le> m" by (cases n) auto
  show ?case
  proof (cases vs)
    case Nil
    with n show ?thesis by (simp add: skip_ws_Cons is_ws_def)
  next
    case (Cons w ws)
    obtain c t where c: "stringify w = c # t" "value_start c"
      using stringify_starts by blast
    have "parse_elements m (join_comma (map stringify vs) @ CHR '']'' # r) = Some (vs, r)"
    proof (rule parse_elements_stringify)
      fix v n r assume "v \<in> set vs" "delimited r" "size v < n"
      moreover from \<open>v \<in> set vs\<close> Arr.prems(1) have "json v" by (simp add: list_all_iff)
      ultimately show "parse_value n (stringify v @ r) = Some (v, r)"
        using Arr.IH by blast
    qed (use Cons m in auto)
    moreover have "\<exists>u. join_comma (map stringify vs) = c # u"
      using Cons c(1) by (cases ws) auto
    ultimately show ?thesis using n c(2)
      by (auto simp: skip_ws_Cons is_ws_def value_start_def)
  qed
next
  case (Obj ps)
  then obtain m where n: "n = Suc m" and m: "size (Obj ps) \<le> m" by (cases n) auto
  from Obj.prems(1) have keys: "distinct (map fst ps)" and vals: "\<forall>p\<in>set ps. json (snd p)"
    by (simp_all add: list_all_iff)
  then have flt: "filter (\<lambda>p. snd p \<noteq> Undefined) ps = ps"
    by (auto simp: filter_id_conv dest: json_not_Undefined)
  show ?case
  proof (cases ps)
    case Nil
    with n show ?thesis by (simp add: skip_ws_Cons is_ws_def)
  next
    case (Cons w ws)
    have "parse_members m
            (join_comma (map (\<lambda>p. stringify_member (fst p) (stringify (snd p))) ps) @ CHR ''}'' # r)
          = Some (ps, r)"
    proof (rule parse_members_stringify)
      fix p n r assume p: "p \<in> set ps" "delimited r" "size (snd p) < n"
      have "snd p \<in> Basic_BNFs.snds p" by (cases p) simp
      with p vals show "parse_value n (stringify (snd p) @ r) = Some (snd p, r)"
        using Obj.IH by blast
    qed (use Cons m in auto)
    moreover have "\<exists>u. join_comma (map (\<lambda>p. stringify_member (fst p) (stringify (snd p))) ps) = dquote # u"
      using Cons by (cases ws) (auto simp: stringify_member_def quote_def)
    ultimately show ?thesis using n flt keys
      by (auto simp: skip_ws_Cons is_ws_def dquote_def obj_of_distinct)
  qed
qed

lemma size_elements_le:
  "(\<And>v. v \<in> set vs \<Longrightarrow> size v \<le> length (stringify v)) \<Longrightarrow>
   size_list size vs \<le> Suc (length (join_comma (map stringify vs)))"
proof (induction vs)
  case Nil
  then show ?case by simp
next
  case (Cons v vs)
  then have "size v \<le> length (stringify v)"
    and "size_list size vs \<le> Suc (length (join_comma (map stringify vs)))"
    by simp_all
  then show ?case by (cases vs) auto
qed

lemma size_members_le:
  "(\<And>p. p \<in> set ps \<Longrightarrow> size (snd p) \<le> length (stringify (snd p))) \<Longrightarrow>
   size (Obj ps) \<le> Suc (Suc (length (join_comma (map (\<lambda>p. stringify_member (fst p) (stringify (snd p))) ps))))"
proof (induction ps)
  case Nil
  then show ?case by simp
next
  case (Cons p ps)
  then have "size (snd p) \<le> length (stringify (snd p))"
    and "size (Obj ps) \<le> Suc (Suc (length (join_comma (map (\<lambda>p. stringify_member (fst p) (stringify (snd p))) ps))))"
    by simp_all
  then show ?case
    by (cases ps; cases p) (auto simp: stringify_member_def quote_def)
qed

lemma size_le_stringify: "json v \<Longrightarrow> size v \<le> length (stringify v)"
proof (induction v)
  case (Arr vs)
  then have "\<And>v. v \<in> set vs \<Longrightarrow> size v \<le> length (stringify v)"
    by (simp add: list_all_iff)
  from size_elements_le [OF this] show ?case by simp
next
  case (Obj ps)
  then have flt: "filter (\<lambda>p. snd p \<noteq> Undefined) ps = ps"
    by (auto simp: filter_id_conv list_all_iff dest: json_not_Undefined)
  have "\<And>p. p \<in> set ps \<Longrightarrow> size (snd p) \<le> length (stringify (snd p))"
  proof -
    fix p assume p: "p \<in> set ps"
    have "snd p \<in> Basic_BNFs.snds p" by (cases p) simp
    with p Obj show "size (snd p) \<le> length (stringify (snd p))"
      by (auto simp: list_all_iff)
  qed
  from size_members_le [OF this] flt show ?case by simp
qed simp_all

lemma JSON_roundtrip: "json v \<Longrightarrow> JSON_parse (JSON_stringify v) = Some v"
proof -
  assume v: "json v"
  have "parse_value (Suc (length (stringify v))) (stringify v @ []) = Some (v, [])"
    using v by (intro parse_value_stringify) (simp_all add: delimited_simps size_le_stringify less_Suc_eq_le)
  then show ?thesis
    by (simp add: JSON_parse_def JSON_stringify_def skip_ws_def)
qed

lemma JSON_parse_empty: "JSON_parse [] = None"
  by (simp add: JSON_parse_def skip_ws_def)

section \<open>Properties of the persistence helpers\<close>

lemma item_check_True: "item_check v = Inr True \<longleftrightarrow> spec_item_valid v"
  by (cases v) (auto simp: item_check_def get_def nullish_def spec_item_valid_def TypeError_def)

lemma js_every_True: "js_every f xs = Inr True \<longleftrightarrow> list_all (\<lambda>x. f x = Inr True) xs"
  by (induction xs) (auto split: sum.splits)

lemma validate_True: "validateWatchlistData v = Inr True \<longleftrightarrow> spec_valid v"
  by (cases v) (simp_all add: validateWatchlistData_def spec_valid_def js_every_True item_check_True)

lemma spec_item_valid_Obj: "spec_item_valid v \<Longrightarrow> Obj (props_of v) = v"
  by (cases v) (simp_all add: spec_item_valid_def)

lemma items_value_items_of: "spec_valid v \<Longrightarrow> items_value (items_of v) = v"
  by (cases v) (auto simp: spec_valid_def items_value_def list_all_iff spec_item_valid_Obj intro: map_idI)

lemma items_of_items_value: "items_of (items_value c) = c"
  by (simp add: items_value_def comp_def)

lemma stringify_items_nonempty: "JSON_stringify (items_value c) \<noteq> []"
  by (simp add: JSON_stringify_def items_value_def)

lemma saveWatchlist_accepted:
  "rejects st STORAGE_KEY (JSON_stringify (items_value c)) = None \<Longrightarrow>
   saveWatchlist st c =
     (st\<lparr>entries := (entries st)(STORAGE_KEY \<mapsto> JSON_stringify (items_value c))\<rparr>, [])"
  by (simp add: saveWatchlist_def saveWatchlist_try_def setItem_def)

lemma saveWatchlist_refused:
  "rejects st STORAGE_KEY (JSON_stringify (items_value c)) = Some e \<Longrightarrow>
   saveWatchlist st c =
     (st, [if instanceof_Error e \<and> exn_name e = ''QuotaExceededError''
           then (''Watchlist storage full. Please remove some items.'', None)
           else (''Failed to save watchlist:'', Some e)])"
  by (simp add: saveWatchlist_def saveWatchlist_try_def setItem_def)

lemma load_stored_text:
  assumes "denied st = None"
    and "entries st STORAGE_KEY = Some (JSON_stringify (items_value c))"
    and "validateWatchlistData (items_value c) = Inr True"
    and "json (items_value c)"
  shows "getWatchlist st = (c, [])"
  using assms
  by (simp add: getWatchlist_def getWatchlist_try_def getItem_def stringify_items_nonempty
      JSON_roundtrip items_of_items_value)

lemma load_after_save:
  assumes "denied st = None"
    and "rejects st STORAGE_KEY (JSON_stringify (items_value c)) = None"
    and "validateWatchlistData (items_value c) = Inr True"
    and "json (items_value c)"
  shows "getWatchlist (fst (saveWatchlist st c)) = (c, [])"
  using assms by (intro load_stored_text) (simp_all add: saveWatchlist_accepted)

section \<open>Properties of the provider\<close>

lemma save_effect_memory:
  "watchlistItems (save_effect p) = watchlistItems p" "pending (save_effect p) = pending p"
  by (simp_all add: save_effect_def split: prod.splits)

lemma load_effect_memory:
  "watchlistItems (load_effect p) = watchlistItems p"
  "pending (load_effect p) = pending p @ [\<lambda>prev. fst (getWatchlist (localStorage p))]"
  "localStorage (load_effect p) = localStorage p"
  by (simp_all add: load_effect_def split: prod.splits)

lemma commit_memory:
  "watchlistItems (commit p) = foldl (\<lambda>prev f. f prev) (watchlistItems p) (pending p)"
  "pending (commit p) = []"
  by (simp_all add: commit_def save_effect_memory)

lemma mount_memory:
  "watchlistItems (mount st) = fst (getWatchlist st)" "pending (mount st) = []"
  by (simp_all add: mount_def mount_effects_def commit_memory save_effect_memory
      load_effect_memory first_render_def)

lemma operation_pending: "pending (operation c p) = []"
  by (simp add: operation_def commit_memory)

lemma add_memory:
  assumes "pending p = []"
  shows "watchlistItems (operation (AddToWatchlist now movie) p) =
           (if nullish movie \<or> isInWatchlist (watchlistItems p) (Str (js_String (field movie ''id'')))
            then watchlistItems p
            else newItem now movie # watchlistItems p)"
  using assms
  by (simp add: operation_def addToWatchlist_def get_def commit_memory isInWatchlist_def Let_def)

lemma remove_memory:
  assumes "pending p = []"
  shows "watchlistItems (operation (RemoveFromWatchlist x) p) =
           filter (\<lambda>item. item_id item \<noteq> Str (js_String x)) (watchlistItems p)"
  using assms by (simp add: operation_def removeFromWatchlist_def commit_memory Let_def)

lemma clear_memory:
  assumes "pending p = []"
  shows "watchlistItems (operation ClearWatchlist p) = []"
  using assms by (simp add: operation_def clearWatchlist_def commit_memory)

lemma item_id_newItem: "item_id (newItem now movie) = Str (js_String (field movie ''id''))"
  by (simp add: item_id_def newItem_def)

lemma isInWatchlist_iff: "isInWatchlist items x \<longleftrightarrow> Str (js_String x) \<in> item_id ` set items"
  by (force simp: isInWatchlist_def list_ex_iff)

lemma operations_Nil: "operations [] p = p"
  by (simp add: operations_def)

lemma operations_Cons: "operations (c # cs) p = operations cs (operation c p)"
  by (simp add: operations_def)

lemma operations_pending: "pending p = [] \<Longrightarrow> pending (operations cs p) = []"
  by (induction cs arbitrary: p) (simp_all add: operations_Nil operations_Cons operation_pending)

lemma operation_distinct:
  assumes "pending p = []" and "distinct (map item_id (watchlistItems p))"
  shows "distinct (map item_id (watchlistItems (operation c p)))"
proof (cases c)
  case (AddToWatchlist now movie)
  with assms show ?thesis
    by (auto simp: add_memory item_id_newItem isInWatchlist_iff)
next
  case (RemoveFromWatchlist x)
  with assms show ?thesis
    by (simp add: remove_memory distinct_map_filter)
next
  case ClearWatchlist
  with assms show ?thesis by (simp add: clear_memory)
qed

lemma operations_distinct:
  "pending p = [] \<Longrightarrow> distinct (map item_id (watchlistItems p)) \<Longrightarrow>
   distinct (map item_id (watchlistItems (operations cs p)))"
  by (induction cs arbitrary: p)
     (simp_all add: operations_Nil operations_Cons operation_pending operation_distinct)

lemma invoke_memory:
  assumes "watchlistItems p = watchlistItems q" and "pending p = pending q"
  shows "watchlistItems (invoke c p) = watchlistItems (invoke c q)"
    and "pending (invoke c p) = pending (invoke c q)"
proof -
  show "watchlistItems (invoke c p) = watchlistItems (invoke c q)"
    using assms by (cases c) (simp_all split: sum.splits option.splits)
  show "pending (invoke c p) = pending (invoke c q)"
    using assms by (cases c) (simp_all split: sum.splits option.splits)
qed

lemma operation_memory:
  assumes "watchlistItems p = watchlistItems q" and "pending p = pending q"
  shows "watchlistItems (operation c p) = watchlistItems (operation c q)"
    and "pending (operation c p) = pending (operation c q)"
  using invoke_memory [OF assms, of c] by (simp_all add: operation_def commit_memory)

lemma operations_memory:
  "watchlistItems p = watchlistItems q \<Longrightarrow> pending p = pending q \<Longrightarrow>
   watchlistItems (operations cs p) = watchlistItems (operations cs q)"
proof (induction cs arbitrary: p q)
  case Nil
  then show ?case by (simp add: operations_Nil)
next
  case (Cons c cs)
  from operation_memory [OF Cons.prems, of c]
  have "watchlistItems (operations cs (operation c p)) = watchlistItems (operations cs (operation c q))"
    by (rule Cons.IH)
  then show ?case by (simp only: operations_Cons)
qed

lemma add_present:
  assumes "pending p = []" and "isInWatchlist (watchlistItems p) (Str (js_String (field movie ''id'')))"
  shows "watchlistItems (operation (AddToWatchlist now movie) p) = watchlistItems p"
  using assms by (simp add: add_memory)

lemma adds_present:
  assumes "pending p = []" and "isInWatchlist (watchlistItems p) (Str k)"
    and "\<forall>a\<in>set as. js_String (field (snd a) ''id'') = k"
  shows "watchlistItems (operations (map (\<lambda>a. AddToWatchlist (fst a) (snd a)) as) p) = watchlistItems p"
  using assms
proof (induction as arbitrary: p)
  case Nil
  then show ?case by (simp add: operations_Nil)
next
  case (Cons a as)
  let ?q = "operation (AddToWatchlist (fst a) (snd a)) p"
  have q: "watchlistItems ?q = watchlistItems p"
    using Cons.prems by (simp add: add_present)
  have "watchlistItems (operations (map (\<lambda>a. AddToWatchlist (fst a) (snd a)) as) ?q) = watchlistItems ?q"
    using Cons.prems q by (intro Cons.IH) (simp_all add: operation_pending)
  with q show ?case by (simp add: operations_Cons)
qed

lemma add_makes_present:
  assumes "pending p = []" and "\<not> nullish movie"
  shows "isInWatchlist (watchlistItems (operation (AddToWatchlist now movie) p))
           (Str (js_String (field movie ''id'')))"
  using assms by (auto simp: add_memory isInWatchlist_iff item_id_newItem)

lemma saveWatchlist_host:
  "rejects (fst (saveWatchlist st c)) = rejects st" "denied (fst (saveWatchlist st c)) = denied st"
  by (simp_all add: saveWatchlist_def saveWatchlist_try_def setItem_def split: option.splits)

lemma save_effect_storage: "localStorage (save_effect p) = fst (saveWatchlist (localStorage p) (watchlistItems p))"
  by (simp add: save_effect_def split: prod.splits)

lemma mount_effects_storage:
  "localStorage (mount_effects (first_render st)) = fst (saveWatchlist st [])"
  by (simp add: mount_effects_def save_effect_storage load_effect_memory first_render_def)

lemma mount_effects_memory:
  "watchlistItems (mount_effects (first_render st)) = []"
  "pending (mount_effects (first_render st)) = [\<lambda>prev. fst (getWatchlist st)]"
  by (simp_all add: mount_effects_def save_effect_memory load_effect_memory first_render_def)

lemma mount_storage:
  "localStorage (mount st) = fst (saveWatchlist (fst (saveWatchlist st [])) (fst (getWatchlist st)))"
  by (simp add: mount_def commit_def mount_effects_memory save_effect_storage mount_effects_storage)

lemma typeof_js_or:
  "string_or_falsy a \<Longrightarrow> typeof b = ''string'' \<Longrightarrow> typeof (js_or a b) = ''string''"
  by (auto simp: js_or_def string_or_falsy_def)

lemma count_present:
  "isInWatchlist items (Str k) \<longleftrightarrow> filter (\<lambda>item. item_id item = Str k) items \<noteq> []"
  by (auto simp: isInWatchlist_def list_ex_iff filter_empty_conv)

section \<open>Hydration and the first write\<close>

text \<open>
  C1 (as stated): no write to the durable store occurs before the mount-time load has
  replaced the in-memory state, so a store pre-populated with a collection is never
  overwritten with the empty pre-hydration collection. This fails: the store below holds
  one item; after the effects of the first render the in-memory collection is still empty,
  and the store already holds the empty collection.
\<close>

theorem hydration_write_counterexample:
  "entries (stored payload_one) STORAGE_KEY = Some (JSON_stringify (items_value [example_item]))
   \<and> fst (getWatchlist (stored payload_one)) = [example_item]
   \<and> watchlistItems (mount_effects (first_render (stored payload_one))) = []
   \<and> entries (localStorage (mount_effects (first_render (stored payload_one)))) STORAGE_KEY = Some ''[]''"
  by code_simp

text \<open>
  C1 (amended): the mount-time load reads the store before any write and is queued as
  the next state; the first save is issued by the effects of the first render, with the
  empty pre-hydration collection; the render that replaces the state with the loaded
  collection issues the second save, with that collection. With a store that accepts
  writes, the store holds the empty collection between the two saves and the loaded
  collection after the second: when it was pre-populated with the text of a valid
  collection of JSON values, it holds that collection again once hydration has completed,
  and so does the in-memory state.
\<close>

theorem mount_write_order:
  assumes "\<forall>v. rejects st STORAGE_KEY v = None"
  shows "pending (mount_effects (first_render st)) = [\<lambda>prev. fst (getWatchlist st)]
    \<and> watchlistItems (mount_effects (first_render st)) = []
    \<and> entries (localStorage (mount_effects (first_render st))) STORAGE_KEY
        = Some (JSON_stringify (items_value []))
    \<and> watchlistItems (mount st) = fst (getWatchlist st)
    \<and> entries (localStorage (mount st)) STORAGE_KEY
        = Some (JSON_stringify (items_value (fst (getWatchlist st))))
    \<and> (denied st = None \<and> entries st STORAGE_KEY = Some (JSON_stringify (items_value c))
         \<and> validateWatchlistData (items_value c) = Inr True \<and> json (items_value c)
        \<longrightarrow> watchlistItems (mount st) = c \<and> fst (getWatchlist (localStorage (mount st))) = c)"
proof -
  let ?st1 = "fst (saveWatchlist st [])"
  have first: "?st1 = st\<lparr>entries := (entries st)(STORAGE_KEY \<mapsto> JSON_stringify (items_value []))\<rparr>"
    using assms by (simp add: saveWatchlist_accepted)
  have acc: "\<forall>v. rejects ?st1 STORAGE_KEY v = None"
    using assms by (simp add: saveWatchlist_host)
  have second: "localStorage (mount st)
      = ?st1\<lparr>entries := (entries ?st1)(STORAGE_KEY \<mapsto> JSON_stringify (items_value (fst (getWatchlist st))))\<rparr>"
    using acc by (simp add: mount_storage saveWatchlist_accepted)
  have hydrated: "watchlistItems (mount st) = c \<and> fst (getWatchlist (localStorage (mount st))) = c"
    if c: "denied st = None" "entries st STORAGE_KEY = Some (JSON_stringify (items_value c))"
      "validateWatchlistData (items_value c) = Inr True" "json (items_value c)"
  proof -
    have loaded: "getWatchlist st = (c, [])" using c by (rule load_stored_text)
    have "getWatchlist (localStorage (mount st)) = (c, [])"
    proof (rule load_stored_text)
      show "denied (localStorage (mount st)) = None"
        using c(1) by (simp add: mount_storage saveWatchlist_host)
      show "entries (localStorage (mount st)) STORAGE_KEY = Some (JSON_stringify (items_value c))"
        using second loaded by simp
    qed (use c in simp_all)
    with loaded show ?thesis by (simp add: mount_memory)
  qed
  have before: "entries (localStorage (mount_effects (first_render st))) STORAGE_KEY
      = Some (JSON_stringify (items_value []))"
    using first by (simp add: mount_effects_storage)
  have after: "entries (localStorage (mount st)) STORAGE_KEY
      = Some (JSON_stringify (items_value (fst (getWatchlist st))))"
    using second by simp
  have restored: "denied st = None \<and> entries st STORAGE_KEY = Some (JSON_stringify (items_value c))
         \<and> validateWatchlistData (items_value c) = Inr True \<and> json (items_value c)
        \<longrightarrow> watchlistItems (mount st) = c \<and> fst (getWatchlist (localStorage (mount st))) = c"
    using hydrated by blast
  show ?thesis
    by (intro conjI mount_effects_memory mount_memory before after restored)
qed

theorem mount_write_order_witness:
  "(\<forall>v. rejects (stored payload_one) STORAGE_KEY v = None)
   \<and> entries (localStorage (mount_effects (first_render (stored payload_one)))) STORAGE_KEY = Some ''[]''
   \<and> watchlistItems (mount (stored payload_one)) = [example_item]
   \<and> fst (getWatchlist (localStorage (mount (stored payload_one)))) = [example_item]"
proof -
  have acc: "\<forall>v. rejects (stored payload_one) STORAGE_KEY v = None"
    by (simp add: stored_def empty_storage_def)
  have pre: "denied (stored payload_one) = None
      \<and> entries (stored payload_one) STORAGE_KEY = Some (JSON_stringify (items_value [example_item]))
      \<and> validateWatchlistData (items_value [example_item]) = Inr True
      \<and> json (items_value [example_item])"
    by code_simp
  have empty: "JSON_stringify (items_value []) = ''[]''" by code_simp
  from mount_write_order [OF acc, of "[example_item]", unfolded empty] pre acc
  show ?thesis by blast
qed

section \<open>Uniqueness of ids\<close>

text \<open>
  C2 (as stated): in every collection reachable through the store's operations, the result
  of hydrating from any stored payload that passes validation included, the ids are
  pairwise distinct. This fails: validation checks the shape of each element and nothing
  else, so the payload below, two items with the id \<open>1\<close>, passes it and is hydrated
  as it is.
\<close>

theorem hydrated_duplicate_ids:
  "map_option validateWatchlistData (JSON_parse payload_twice) = Some (Inr True)
   \<and> \<not> distinct (map item_id (watchlistItems (mount (stored payload_twice))))"
  by code_simp

text \<open>
  C2 (amended): the collection of the first render is empty, and add, remove and clear,
  each run to completion before the next, introduce no duplicate: whenever the items
  loaded at mount have pairwise distinct ids (nothing stored, a rejected payload, or a
  validated payload that repeats no id), so has every collection reached from them.
\<close>

theorem distinct_ids_preserved:
  assumes "distinct (map item_id (fst (getWatchlist st)))"
  shows "distinct (map item_id (watchlistItems (first_render st)))
    \<and> distinct (map item_id (watchlistItems (mount st)))
    \<and> distinct (map item_id (watchlistItems (operations cs (mount st))))"
  using assms
  by (simp add: first_render_def mount_memory operations_distinct)

theorem distinct_ids_preserved_witness:
  "distinct (map item_id (fst (getWatchlist (stored payload_one))))
   \<and> distinct (map item_id (watchlistItems (operations
         [AddToWatchlist ''2024-01-01T00:00:00.000Z'' candidate_b,
          AddToWatchlist ''2024-01-02T00:00:00.000Z'' candidate_a,
          RemoveFromWatchlist (Num 2),
          AddToWatchlist ''2024-01-03T00:00:00.000Z'' candidate_b]
         (mount (stored payload_one)))))"
proof -
  have h: "distinct (map item_id (fst (getWatchlist (stored payload_one))))" by code_simp
  from distinct_ids_preserved [OF h] h show ?thesis by blast
qed

section \<open>The constructed item\<close>

text \<open>
  C3 (as stated): the constructed item has the title \<open>original_title\<close>, else \<open>name\<close>,
  else the raw \<open>title\<close>, else the empty string, and every field of it is a string, for
  a candidate that may omit \<open>category\<close>, one of \<open>original_title\<close> and \<open>name\<close>, and
  \<open>backdrop_path\<close>. This fails: for the first candidate below, which omits
  \<open>backdrop_path\<close>, that field of the item is \<open>undefined\<close>; for the second, which has
  no title at all, the title of the item is not the empty string.
\<close>

theorem newItem_counterexample:
  "watchlistItems (operation (AddToWatchlist ''2024-01-01T00:00:00.000Z'' candidate_no_backdrop) (mount empty_storage))
     = [newItem ''2024-01-01T00:00:00.000Z'' candidate_no_backdrop]
   \<and> typeof (lookup (newItem ''2024-01-01T00:00:00.000Z'' candidate_no_backdrop) ''backdrop_path'') \<noteq> ''string''
   \<and> watchlistItems (operation (AddToWatchlist ''2024-01-01T00:00:00.000Z'' candidate_untitled) (mount empty_storage))
     = [newItem ''2024-01-01T00:00:00.000Z'' candidate_untitled]
   \<and> lookup (newItem ''2024-01-01T00:00:00.000Z'' candidate_untitled) ''title'' \<noteq> Str []"
  by code_simp

text \<open>
  C3 (amended): for a candidate whose id is not yet in the collection, the item prepended
  has the string coercion of the candidate's id as \<open>id\<close> and the time of the call as
  \<open>addedAt\<close>; its title is the candidate's \<open>original_title\<close> when that is truthy (a
  non-empty string), else its \<open>name\<close> when that is truthy, else its raw \<open>title\<close> when
  it has one; its category is the candidate's when that is truthy, else \<open>movie\<close>;
  \<open>poster_path\<close>, \<open>overview\<close> and \<open>backdrop_path\<close> are the candidate's, unchanged.
  Every field of the item is a string when the candidate gives strings for those three,
  a string or nothing for \<open>category\<close>, \<open>original_title\<close> and \<open>name\<close>, and a title
  through one of its three sources.
\<close>

theorem newItem_fields:
  assumes "pending p = []" and "\<not> nullish movie"
    and "\<not> isInWatchlist (watchlistItems p) (Str (js_String (field movie ''id'')))"
  shows "watchlistItems (operation (AddToWatchlist now movie) p) = newItem now movie # watchlistItems p
    \<and> lookup (newItem now movie) ''id'' = Str (js_String (field movie ''id''))
    \<and> lookup (newItem now movie) ''addedAt'' = Str now
    \<and> (truthy (field movie ''original_title'') \<longrightarrow>
          lookup (newItem now movie) ''title'' = field movie ''original_title'')
    \<and> (\<not> truthy (field movie ''original_title'') \<and> truthy (field movie ''name'') \<longrightarrow>
          lookup (newItem now movie) ''title'' = field movie ''name'')
    \<and> (\<not> truthy (field movie ''original_title'') \<and> \<not> truthy (field movie ''name'')
         \<and> field movie ''title'' \<noteq> Undefined \<longrightarrow>
          lookup (newItem now movie) ''title'' = field movie ''title'')
    \<and> (truthy (field movie ''category'') \<longrightarrow>
          lookup (newItem now movie) ''category'' = field movie ''category'')
    \<and> (\<not> truthy (field movie ''category'') \<longrightarrow>
          lookup (newItem now movie) ''category'' = Str ''movie'')
    \<and> lookup (newItem now movie) ''poster_path'' = field movie ''poster_path''
    \<and> lookup (newItem now movie) ''overview'' = field movie ''overview''
    \<and> lookup (newItem now movie) ''backdrop_path'' = field movie ''backdrop_path''
    \<and> (string_or_falsy (field movie ''category'')
         \<and> string_or_falsy (field movie ''original_title'')
         \<and> string_or_falsy (field movie ''name'')
         \<and> (truthy (field movie ''original_title'') \<or> truthy (field movie ''name'')
              \<or> typeof (field movie ''title'') = ''string'')
         \<and> typeof (field movie ''poster_path'') = ''string''
         \<and> typeof (field movie ''overview'') = ''string''
         \<and> typeof (field movie ''backdrop_path'') = ''string''
        \<longrightarrow> list_all (\<lambda>kv. typeof (snd kv) = ''string'') (newItem now movie))"
proof -
  have added: "watchlistItems (operation (AddToWatchlist now movie) p) = newItem now movie # watchlistItems p"
    using assms by (simp add: add_memory)
  have title: "typeof (js_or (js_or (field movie ''original_title'') (field movie ''name'')) (field movie ''title'')) = ''string''"
    if "string_or_falsy (field movie ''original_title'')" "string_or_falsy (field movie ''name'')"
      "truthy (field movie ''original_title'') \<or> truthy (field movie ''name'') \<or> typeof (field movie ''title'') = ''string''"
    using that by (auto simp: js_or_def string_or_falsy_def)
  have strings: "list_all (\<lambda>kv. typeof (snd kv) = ''string'') (newItem now movie)"
    if "string_or_falsy (field movie ''category'')"
      "string_or_falsy (field movie ''original_title'')" "string_or_falsy (field movie ''name'')"
      "truthy (field movie ''original_title'') \<or> truthy (field movie ''name'') \<or> typeof (field movie ''title'') = ''string''"
      "typeof (field movie ''poster_path'') = ''string''" "typeof (field movie ''overview'') = ''string''"
      "typeof (field movie ''backdrop_path'') = ''string''"
    using that title by (simp add: newItem_def typeof_js_or)
  have fields: "lookup (newItem now movie) ''id'' = Str (js_String (field movie ''id''))"
    "lookup (newItem now movie) ''addedAt'' = Str now"
    "lookup (newItem now movie) ''poster_path'' = field movie ''poster_path''"
    "lookup (newItem now movie) ''overview'' = field movie ''overview''"
    "lookup (newItem now movie) ''backdrop_path'' = field movie ''backdrop_path''"
    by (simp_all add: newItem_def)
  have chain: "truthy (field movie ''original_title'') \<longrightarrow>
          lookup (newItem now movie) ''title'' = field movie ''original_title''"
    "\<not> truthy (field movie ''original_title'') \<and> truthy (field movie ''name'') \<longrightarrow>
          lookup (newItem now movie) ''title'' = field movie ''name''"
    "\<not> truthy (field movie ''original_title'') \<and> \<not> truthy (field movie ''name'')
         \<and> field movie ''title'' \<noteq> Undefined \<longrightarrow>
          lookup (newItem now movie) ''title'' = field movie ''title''"
    "truthy (field movie ''category'') \<longrightarrow>
          lookup (newItem now movie) ''category'' = field movie ''category''"
    "\<not> truthy (field movie ''category'') \<longrightarrow>
          lookup (newItem now movie) ''category'' = Str ''movie''"
    by (simp_all add: newItem_def js_or_def)
  from added fields chain strings show ?thesis by blast
qed

theorem newItem_fields_witness:
  "pending (mount empty_storage) = [] \<and> \<not> nullish candidate_b
   \<and> \<not> isInWatchlist (watchlistItems (mount empty_storage)) (Str (js_String (field candidate_b ''id'')))
   \<and> watchlistItems (operation (AddToWatchlist ''2024-01-01T00:00:00.000Z'' candidate_b) (mount empty_storage))
       = [[(''id'', Str ''2''), (''category'', Str ''tv''), (''poster_path'', Str ''/c.jpg''),
           (''title'', Str ''Dark''), (''original_title'', Str []), (''name'', Str ''Dark''),
           (''overview'', Str ''caves''), (''backdrop_path'', Str ''/d.jpg''),
           (''addedAt'', Str ''2024-01-01T00:00:00.000Z'')]]
   \<and> list_all (\<lambda>kv. typeof (snd kv) = ''string'') (newItem ''2024-01-01T00:00:00.000Z'' candidate_b)"
proof -
  have h: "pending (mount empty_storage) = []" "\<not> nullish candidate_b"
    "\<not> isInWatchlist (watchlistItems (mount empty_storage)) (Str (js_String (field candidate_b ''id'')))"
    by code_simp+
  have pre: "string_or_falsy (field candidate_b ''category'')
         \<and> string_or_falsy (field candidate_b ''original_title'')
         \<and> string_or_falsy (field candidate_b ''name'')
         \<and> (truthy (field candidate_b ''original_title'') \<or> truthy (field candidate_b ''name'')
              \<or> typeof (field candidate_b ''title'') = ''string'')
         \<and> typeof (field candidate_b ''poster_path'') = ''string''
         \<and> typeof (field candidate_b ''overview'') = ''string''
         \<and> typeof (field candidate_b ''backdrop_path'') = ''string''"
    by code_simp
  have v: "newItem ''2024-01-01T00:00:00.000Z'' candidate_b # watchlistItems (mount empty_storage)
       = [[(''id'', Str ''2''), (''category'', Str ''tv''), (''poster_path'', Str ''/c.jpg''),
           (''title'', Str ''Dark''), (''original_title'', Str []), (''name'', Str ''Dark''),
           (''overview'', Str ''caves''), (''backdrop_path'', Str ''/d.jpg''),
           (''addedAt'', Str ''2024-01-01T00:00:00.000Z'')]]"
    by code_simp
  from newItem_fields [OF h, of "''2024-01-01T00:00:00.000Z''"] pre h
  show ?thesis unfolding v by blast
qed

section \<open>Loading\<close>

text \<open>
  C4: \<open>getWatchlist\<close> returns a collection for every state of the store, and never an
  exception (its result is not a sum). The collection is empty when nothing is stored
  under the key, when the text does not parse, and when it parses to anything but a
  sequence whose elements all have a string \<open>id\<close>, a \<open>category\<close> \<open>movie\<close> or \<open>tv\<close>
  and a string \<open>title\<close>, one failing element being enough; otherwise it is the parsed
  value. It is empty as well when the host denies the read.
\<close>

theorem getWatchlist_total:
  "items_value (fst (getWatchlist st)) =
     (case denied st of
        Some e \<Rightarrow> Arr []
      | None \<Rightarrow>
          (case entries st STORAGE_KEY of
             None \<Rightarrow> Arr []
           | Some s \<Rightarrow>
               (case JSON_parse s of
                  None \<Rightarrow> Arr []
                | Some v \<Rightarrow> if spec_valid v then v else Arr [])))"
proof (cases "denied st")
  case (Some e)
  then show ?thesis
    by (simp add: getWatchlist_def getWatchlist_try_def getItem_def items_value_def)
next
  case None
  show ?thesis
  proof (cases "entries st STORAGE_KEY")
    case absent: None
    with None show ?thesis
      by (simp add: getWatchlist_def getWatchlist_try_def getItem_def items_value_def)
  next
    case (Some s)
    show ?thesis
    proof (cases "JSON_parse s")
      case unparseable: None
      with None Some show ?thesis
        by (simp add: getWatchlist_def getWatchlist_try_def getItem_def items_value_def)
    next
      case parsed: (Some v)
      then have s: "s \<noteq> []" using JSON_parse_empty by auto
      show ?thesis
      proof (cases "validateWatchlistData v")
        case (Inl e)
        then have "\<not> spec_valid v" using validate_True [of v] by simp
        with None Some parsed s Inl show ?thesis
          by (simp add: getWatchlist_def getWatchlist_try_def getItem_def items_value_def)
      next
        case (Inr ok)
        then have "ok \<longleftrightarrow> spec_valid v" using validate_True [of v] by auto
        with None Some parsed s Inr show ?thesis
          by (auto simp: getWatchlist_def getWatchlist_try_def getItem_def items_value_items_of)
             (simp add: items_value_def)
      qed
    qed
  qed
qed

theorem getWatchlist_total_witness:
  \<open>fst (getWatchlist empty_storage) = []
   \<and> fst (getWatchlist (stored ''[{"id":"1","category":"movie"'')) = []
   \<and> fst (getWatchlist (stored ''[{"id":"1","category":"movie","title":"Inception"},{"id":"2","category":"book","title":"Dune"}]'')) = []
   \<and> fst (getWatchlist (stored payload_one)) = [example_item]\<close>
proof -
  have inj: "\<And>xs ys. items_value xs = items_value ys \<Longrightarrow> xs = ys"
    by (simp add: items_value_def inj_map_eq_map inj_on_def)
  have 1: "items_value (fst (getWatchlist empty_storage)) = items_value []"
    unfolding getWatchlist_total by code_simp
  have 2: \<open>items_value (fst (getWatchlist (stored ''[{"id":"1","category":"movie"''))) = items_value []\<close>
    unfolding getWatchlist_total by code_simp
  have 3: \<open>items_value (fst (getWatchlist (stored ''[{"id":"1","category":"movie","title":"Inception"},{"id":"2","category":"book","title":"Dune"}]''))) = items_value []\<close>
    unfolding getWatchlist_total by code_simp
  have 4: "items_value (fst (getWatchlist (stored payload_one))) = items_value [example_item]"
    unfolding getWatchlist_total by code_simp
  from 1 2 3 4 show ?thesis by (blast dest: inj)
qed

section \<open>Adding\<close>

text \<open>
  C5 (as stated): for every sequence of \<open>add\<close> calls whose candidates have the same
  canonical id, the collection has exactly one item with that id, and every call after the
  first leaves it unchanged. This fails in two ways. The guard of \<open>addToWatchlist\<close>
  reads the collection of the render in which it is called, so two calls made from one
  render, on a collection without the id, both pass it, and the commit prepends two items
  with the id \<open>1\<close>. And a collection hydrated from a payload that repeats the id keeps
  both items, whatever is added.
\<close>

theorem repeated_add_counterexample:
  "js_String (field candidate_a ''id'') = ''1''
   \<and> map item_id (watchlistItems (mount empty_storage)) = []
   \<and> map item_id (watchlistItems (commit
         (invoke (AddToWatchlist ''2024-01-02T00:00:00.000Z'' candidate_a)
           (invoke (AddToWatchlist ''2024-01-01T00:00:00.000Z'' candidate_a)
             (mount empty_storage)))))
       = [Str ''1'', Str ''1'']
   \<and> map item_id (watchlistItems (operations
         [AddToWatchlist ''2024-01-01T00:00:00.000Z'' candidate_a,
          AddToWatchlist ''2024-01-02T00:00:00.000Z'' candidate_a]
         (mount (stored payload_twice))))
       = [Str ''1'', Str ''1'']"
  by code_simp

text \<open>
  C5 (amended): for a sequence of \<open>add\<close> calls whose candidates have the same canonical
  id \<open>k\<close>, each run to completion (its update committed by a render) before the next:
  every call after the first leaves the collection as the first left it; when the
  collection had at most one item with the id \<open>k\<close> before, it has exactly one after;
  and when it had none, so that the first call is the successful one, the item with that
  id is the one built by the first call, with the time of that call as \<open>addedAt\<close>.
\<close>

theorem repeated_add:
  assumes "pending p = []"
    and "\<forall>a\<in>set (a0 # as). \<not> nullish (snd a) \<and> js_String (field (snd a) ''id'') = k"
  shows "watchlistItems (operations (map (\<lambda>a. AddToWatchlist (fst a) (snd a)) (a0 # as)) p)
           = watchlistItems (operation (AddToWatchlist (fst a0) (snd a0)) p)
    \<and> (length (filter (\<lambda>item. item_id item = Str k) (watchlistItems p)) \<le> 1 \<longrightarrow>
          length (filter (\<lambda>item. item_id item = Str k)
            (watchlistItems (operations (map (\<lambda>a. AddToWatchlist (fst a) (snd a)) (a0 # as)) p))) = 1)
    \<and> (\<not> isInWatchlist (watchlistItems p) (Str k) \<longrightarrow>
          watchlistItems (operations (map (\<lambda>a. AddToWatchlist (fst a) (snd a)) (a0 # as)) p)
            = newItem (fst a0) (snd a0) # watchlistItems p
          \<and> (\<forall>item\<in>set (watchlistItems
                  (operations (map (\<lambda>a. AddToWatchlist (fst a) (snd a)) (a0 # as)) p)).
                item_id item = Str k \<longrightarrow> lookup item ''addedAt'' = Str (fst a0)))"
proof -
  let ?first = "operation (AddToWatchlist (fst a0) (snd a0)) p"
  let ?all = "operations (map (\<lambda>a. AddToWatchlist (fst a) (snd a)) (a0 # as)) p"
  from assms(2) have a0: "\<not> nullish (snd a0)" "js_String (field (snd a0) ''id'') = k"
    and rest: "\<forall>a\<in>set as. js_String (field (snd a) ''id'') = k"
    by simp_all
  have present: "isInWatchlist (watchlistItems ?first) (Str k)"
    using add_makes_present [OF assms(1) a0(1), of "fst a0"] a0(2) by simp
  have "watchlistItems (operations (map (\<lambda>a. AddToWatchlist (fst a) (snd a)) as) ?first)
      = watchlistItems ?first"
    by (rule adds_present [OF operation_pending present rest])
  then have noop: "watchlistItems ?all = watchlistItems ?first"
    by (simp add: operations_Cons)
  have first: "watchlistItems ?first =
      (if isInWatchlist (watchlistItems p) (Str k) then watchlistItems p
       else newItem (fst a0) (snd a0) # watchlistItems p)"
    using a0 by (simp add: add_memory [OF assms(1)])
  have one: "length (filter (\<lambda>item. item_id item = Str k) (watchlistItems ?all)) = 1"
    if "length (filter (\<lambda>item. item_id item = Str k) (watchlistItems p)) \<le> 1"
  proof (cases "isInWatchlist (watchlistItems p) (Str k)")
    case True
    then have "filter (\<lambda>item. item_id item = Str k) (watchlistItems p) \<noteq> []"
      by (simp add: count_present)
    then have "length (filter (\<lambda>item. item_id item = Str k) (watchlistItems p)) = 1"
      using that by (cases "filter (\<lambda>item. item_id item = Str k) (watchlistItems p)") auto
    with True show ?thesis unfolding noop first by simp
  next
    case False
    then have "filter (\<lambda>item. item_id item = Str k) (watchlistItems p) = []"
      by (simp add: count_present)
    with False a0 show ?thesis unfolding noop first by (simp add: item_id_newItem)
  qed
  have fresh: "watchlistItems ?all = newItem (fst a0) (snd a0) # watchlistItems p
      \<and> (\<forall>item\<in>set (watchlistItems ?all).
            item_id item = Str k \<longrightarrow> lookup item ''addedAt'' = Str (fst a0))"
    if absent: "\<not> isInWatchlist (watchlistItems p) (Str k)"
  proof -
    have eq: "watchlistItems ?all = newItem (fst a0) (snd a0) # watchlistItems p"
      using absent unfolding noop first by simp
    have "\<forall>item\<in>set (watchlistItems p). item_id item \<noteq> Str k"
      using absent by (force simp: isInWatchlist_iff)
    moreover have "lookup (newItem (fst a0) (snd a0)) ''addedAt'' = Str (fst a0)"
      by (simp add: newItem_def)
    ultimately show ?thesis unfolding eq by simp
  qed
  from noop one fresh show ?thesis by blast
qed

theorem repeated_add_witness:
  "watchlistItems (operations
      [AddToWatchlist ''2024-01-01T00:00:00.000Z'' candidate_a,
       AddToWatchlist ''2024-01-02T00:00:00.000Z'' (Obj [(''id'', Str ''1''), (''name'', Str ''Other'')]),
       AddToWatchlist ''2024-01-03T00:00:00.000Z'' candidate_a]
      (mount (stored payload_42)))
     = newItem ''2024-01-01T00:00:00.000Z'' candidate_a # watchlistItems (mount (stored payload_42))
   \<and> length (filter (\<lambda>item. item_id item = Str ''1'')
        (watchlistItems (operations
          [AddToWatchlist ''2024-01-01T00:00:00.000Z'' candidate_a,
           AddToWatchlist ''2024-01-02T00:00:00.000Z'' (Obj [(''id'', Str ''1''), (''name'', Str ''Other'')]),
           AddToWatchlist ''2024-01-03T00:00:00.000Z'' candidate_a]
          (mount (stored payload_42))))) = 1"
proof -
  let ?as = "[(''2024-01-02T00:00:00.000Z'', Obj [(''id'', Str ''1''), (''name'', Str ''Other'')]),
              (''2024-01-03T00:00:00.000Z'', candidate_a)]"
  have p: "pending (mount (stored payload_42)) = []" by (rule mount_memory)
  have ids: "\<forall>a\<in>set ((''2024-01-01T00:00:00.000Z'', candidate_a) # ?as).
      \<not> nullish (snd a) \<and> js_String (field (snd a) ''id'') = ''1''"
    by code_simp
  have absent: "\<not> isInWatchlist (watchlistItems (mount (stored payload_42))) (Str ''1'')"
    by code_simp
  have le: "length (filter (\<lambda>item. item_id item = Str ''1'') (watchlistItems (mount (stored payload_42)))) \<le> 1"
    by code_simp
  note r = repeated_add [OF p ids, unfolded list.map fst_conv snd_conv]
  from r absent le show ?thesis by blast
qed

text \<open>
  C6 (as stated): for every collection and candidates \<open>a\<close> and \<open>b\<close> with distinct ids,
  after \<open>add(a)\<close> and \<open>add(b)\<close> the collection is \<open>b\<close>, \<open>a\<close>, then the previous items.
  This fails when the collection already has the id of \<open>a\<close>: the first call changes
  nothing, and only \<open>b\<close> is prepended.
\<close>

theorem add_order_counterexample:
  "js_String (field candidate_a ''id'') \<noteq> js_String (field candidate_b ''id'')
   \<and> watchlistItems (operations
        [AddToWatchlist ''2024-01-02T00:00:00.000Z'' candidate_a,
         AddToWatchlist ''2024-01-03T00:00:00.000Z'' candidate_b]
        (operation (AddToWatchlist ''2024-01-01T00:00:00.000Z'' candidate_a) (mount empty_storage)))
     \<noteq> newItem ''2024-01-03T00:00:00.000Z'' candidate_b
        # newItem ''2024-01-02T00:00:00.000Z'' candidate_a
        # watchlistItems (operation (AddToWatchlist ''2024-01-01T00:00:00.000Z'' candidate_a) (mount empty_storage))"
  by code_simp

text \<open>
  C6 (amended): for every collection and candidates \<open>a\<close> and \<open>b\<close> with distinct ids,
  neither of them already in the collection, after \<open>add(a)\<close> and \<open>add(b)\<close> the
  collection is the item of \<open>b\<close>, the item of \<open>a\<close>, then the previous items in their
  order.
\<close>

theorem add_prepends:
  assumes "pending p = []" and "\<not> nullish a" and "\<not> nullish b"
    and "js_String (field a ''id'') \<noteq> js_String (field b ''id'')"
    and "\<not> isInWatchlist (watchlistItems p) (Str (js_String (field a ''id'')))"
    and "\<not> isInWatchlist (watchlistItems p) (Str (js_String (field b ''id'')))"
  shows "watchlistItems (operations [AddToWatchlist ta a, AddToWatchlist tb b] p)
           = newItem tb b # newItem ta a # watchlistItems p"
proof -
  let ?q = "operation (AddToWatchlist ta a) p"
  have q: "watchlistItems ?q = newItem ta a # watchlistItems p" "pending ?q = []"
    using assms by (simp_all add: add_memory operation_pending)
  have "\<not> isInWatchlist (watchlistItems ?q) (Str (js_String (field b ''id'')))"
    using assms q(1) by (auto simp: isInWatchlist_iff item_id_newItem)
  then have "watchlistItems (operation (AddToWatchlist tb b) ?q) = newItem tb b # watchlistItems ?q"
    using assms(3) q(2) by (simp add: add_memory)
  with q(1) show ?thesis by (simp add: operations_Cons operations_Nil)
qed

theorem add_prepends_witness:
  "watchlistItems (operations
      [AddToWatchlist ''2024-01-02T00:00:00.000Z'' candidate_a,
       AddToWatchlist ''2024-01-03T00:00:00.000Z'' candidate_b]
      (mount (stored payload_42)))
    = [newItem ''2024-01-03T00:00:00.000Z'' candidate_b,
       newItem ''2024-01-02T00:00:00.000Z'' candidate_a,
       [(''id'', Str ''42''), (''category'', Str ''tv''), (''title'', Str ''Dark'')]]"
proof -
  have p: "pending (mount (stored payload_42)) = []" by (rule mount_memory)
  have h: "\<not> nullish candidate_a" "\<not> nullish candidate_b"
    "js_String (field candidate_a ''id'') \<noteq> js_String (field candidate_b ''id'')"
    "\<not> isInWatchlist (watchlistItems (mount (stored payload_42))) (Str (js_String (field candidate_a ''id'')))"
    "\<not> isInWatchlist (watchlistItems (mount (stored payload_42))) (Str (js_String (field candidate_b ''id'')))"
    by code_simp+
  have before: "watchlistItems (mount (stored payload_42))
      = [[(''id'', Str ''42''), (''category'', Str ''tv''), (''title'', Str ''Dark'')]]"
    by code_simp
  from add_prepends [OF p h] before show ?thesis by simp
qed

section \<open>Saving and loading again\<close>

text \<open>
  C7 (as stated): for every collection that passes validation, loading after saving it
  gives the collection back exactly. This fails in two ways: a store whose quota is
  exhausted keeps what it had; and a field that is \<open>undefined\<close>, as the
  \<open>backdrop_path\<close> of the item built from a candidate without one, is not written, so
  the loaded item has no such field.
\<close>

theorem roundtrip_counterexample:
  "validateWatchlistData (items_value [example_item]) = Inr True
   \<and> fst (getWatchlist (fst (saveWatchlist quota_full [example_item]))) \<noteq> [example_item]
   \<and> validateWatchlistData (items_value [newItem ''2024-01-01T00:00:00.000Z'' candidate_no_backdrop]) = Inr True
   \<and> fst (getWatchlist (fst (saveWatchlist empty_storage [newItem ''2024-01-01T00:00:00.000Z'' candidate_no_backdrop])))
      \<noteq> [newItem ''2024-01-01T00:00:00.000Z'' candidate_no_backdrop]"
  by code_simp

text \<open>
  C7 (amended): for every collection that passes validation and holds JSON values only (no
  \<open>undefined\<close> field), when the store accepts the write and allows the read, loading
  after saving gives the collection back exactly: the same items, fields and order.
\<close>

theorem save_load_roundtrip:
  assumes "validateWatchlistData (items_value c) = Inr True"
    and "json (items_value c)"
    and "rejects st STORAGE_KEY (JSON_stringify (items_value c)) = None"
    and "denied st = None"
  shows "fst (getWatchlist (fst (saveWatchlist st c))) = c"
  using load_after_save [OF assms(4) assms(3) assms(1) assms(2)] by simp

theorem save_load_roundtrip_witness:
  "validateWatchlistData (items_value [newItem ''2024-01-02T00:00:00.000Z'' candidate_b, example_item]) = Inr True
   \<and> json (items_value [newItem ''2024-01-02T00:00:00.000Z'' candidate_b, example_item])
   \<and> fst (getWatchlist (fst (saveWatchlist (stored payload_42)
          [newItem ''2024-01-02T00:00:00.000Z'' candidate_b, example_item])))
       = [newItem ''2024-01-02T00:00:00.000Z'' candidate_b, example_item]"
proof -
  let ?c = "[newItem ''2024-01-02T00:00:00.000Z'' candidate_b, example_item]"
  have v: "validateWatchlistData (items_value ?c) = Inr True" by code_simp
  have j: "json (items_value ?c)" by code_simp
  have a: "rejects (stored payload_42) STORAGE_KEY (JSON_stringify (items_value ?c)) = None"
    by (simp add: stored_def empty_storage_def)
  have d: "denied (stored payload_42) = None" by (simp add: stored_def empty_storage_def)
  from save_load_roundtrip [OF v j a d] v j show ?thesis by blast
qed

section \<open>A store that rejects a write\<close>

text \<open>
  C8: when the store rejects the write, \<open>saveWatchlist\<close> returns normally with the store
  as it was and one logged line, the quota message when the exception is an \<open>Error\<close>
  named \<open>QuotaExceededError\<close> and the general message with the exception otherwise; the
  save effect leaves the in-memory collection alone; and the collection that a sequence
  of operations produces does not depend on the store at all.
\<close>

theorem save_failure_contained:
  "(rejects st STORAGE_KEY (JSON_stringify (items_value items)) = Some e \<longrightarrow>
      saveWatchlist st items =
        (st, [if instanceof_Error e \<and> exn_name e = ''QuotaExceededError''
              then (''Watchlist storage full. Please remove some items.'', None)
              else (''Failed to save watchlist:'', Some e)]))
   \<and> watchlistItems (save_effect p) = watchlistItems p
   \<and> watchlistItems (operations cs (p\<lparr>localStorage := st'\<rparr>)) = watchlistItems (operations cs p)"
proof -
  have "watchlistItems (operations cs (p\<lparr>localStorage := st'\<rparr>)) = watchlistItems (operations cs p)"
    by (rule operations_memory) simp_all
  then show ?thesis
    by (simp add: saveWatchlist_refused save_effect_memory)
qed

theorem save_failure_contained_witness:
  "saveWatchlist quota_full [example_item]
     = (quota_full, [(''Watchlist storage full. Please remove some items.'', None)])
   \<and> saveWatchlist storage_disabled [example_item]
     = (storage_disabled, [(''Failed to save watchlist:'', Some (Exn True ''SecurityError''))])
   \<and> watchlistItems (operations
        [AddToWatchlist ''2024-01-01T00:00:00.000Z'' candidate_a,
         AddToWatchlist ''2024-01-02T00:00:00.000Z'' candidate_b,
         RemoveFromWatchlist (Str ''1'')]
        ((mount empty_storage)\<lparr>localStorage := storage_disabled\<rparr>))
     = [newItem ''2024-01-02T00:00:00.000Z'' candidate_b]"
proof -
  have q: "rejects quota_full STORAGE_KEY (JSON_stringify (items_value [example_item]))
      = Some (Exn True ''QuotaExceededError'')"
    by (simp add: quota_full_def)
  have d: "rejects storage_disabled STORAGE_KEY (JSON_stringify (items_value [example_item]))
      = Some (Exn True ''SecurityError'')"
    by (simp add: storage_disabled_def)
  have m: "watchlistItems (operations
        [AddToWatchlist ''2024-01-01T00:00:00.000Z'' candidate_a,
         AddToWatchlist ''2024-01-02T00:00:00.000Z'' candidate_b,
         RemoveFromWatchlist (Str ''1'')]
        (mount empty_storage))
     = [newItem ''2024-01-02T00:00:00.000Z'' candidate_b]"
    by code_simp
  note a = save_failure_contained [of quota_full "[example_item]" "Exn True ''QuotaExceededError''"]
  note b = save_failure_contained [of storage_disabled "[example_item]" "Exn True ''SecurityError''"
      "mount empty_storage" "[AddToWatchlist ''2024-01-01T00:00:00.000Z'' candidate_a,
         AddToWatchlist ''2024-01-02T00:00:00.000Z'' candidate_b,
         RemoveFromWatchlist (Str ''1'')]" storage_disabled]
  from a q have 1: "saveWatchlist quota_full [example_item]
     = (quota_full, [(''Watchlist storage full. Please remove some items.'', None)])"
    by simp
  from b d have 2: "saveWatchlist storage_disabled [example_item]
     = (storage_disabled, [(''Failed to save watchlist:'', Some (Exn True ''SecurityError''))])"
    by simp
  from b m have 3: "watchlistItems (operations
        [AddToWatchlist ''2024-01-01T00:00:00.000Z'' candidate_a,
         AddToWatchlist ''2024-01-02T00:00:00.000Z'' candidate_b,
         RemoveFromWatchlist (Str ''1'')]
        ((mount empty_storage)\<lparr>localStorage := storage_disabled\<rparr>))
     = [newItem ''2024-01-02T00:00:00.000Z'' candidate_b]"
    by simp
  from 1 2 3 show ?thesis by blast
qed

section \<open>Membership and removal\<close>

text \<open>
  C9: \<open>isInWatchlist\<close> holds of an input, string or number, exactly when the collection
  has an item whose id is the string coercion of the input; in particular, after hydrating
  a payload with the one id \<open>"42"\<close>, it holds of the number \<open>42\<close>.
\<close>

theorem isInWatchlist_canonical:
  "(isInWatchlist items x \<longleftrightarrow> (\<exists>item\<in>set items. item_id item = Str (js_String x)))
   \<and> watchlistItems (mount (stored payload_42))
       = [[(''id'', Str ''42''), (''category'', Str ''tv''), (''title'', Str ''Dark'')]]
   \<and> isInWatchlist (watchlistItems (mount (stored payload_42))) (Num 42)"
proof -
  have "isInWatchlist items x \<longleftrightarrow> (\<exists>item\<in>set items. item_id item = Str (js_String x))"
    by (simp add: isInWatchlist_def list_ex_iff)
  moreover have "watchlistItems (mount (stored payload_42))
       = [[(''id'', Str ''42''), (''category'', Str ''tv''), (''title'', Str ''Dark'')]]"
    by code_simp
  moreover have "isInWatchlist (watchlistItems (mount (stored payload_42))) (Num 42)"
    by code_simp
  ultimately show ?thesis by blast
qed

theorem isInWatchlist_canonical_witness:
  "isInWatchlist [example_item] (Num 1) \<and> isInWatchlist [example_item] (Str ''1'')
   \<and> \<not> isInWatchlist [example_item] (Num 10) \<and> \<not> isInWatchlist [example_item] (Str ''01'')"
proof -
  have e: "\<exists>item\<in>set [example_item]. item_id item = Str (js_String (Num 1))"
    "\<exists>item\<in>set [example_item]. item_id item = Str (js_String (Str ''1''))"
    "\<not> (\<exists>item\<in>set [example_item]. item_id item = Str (js_String (Num 10)))"
    "\<not> (\<exists>item\<in>set [example_item]. item_id item = Str (js_String (Str ''01'')))"
    by code_simp+
  from isInWatchlist_canonical [of "[example_item]" "Num 1"]
    isInWatchlist_canonical [of "[example_item]" "Str ''1''"]
    isInWatchlist_canonical [of "[example_item]" "Num 10"]
    isInWatchlist_canonical [of "[example_item]" "Str ''01''"] e
  show ?thesis by blast
qed

text \<open>
  C10: \<open>remove\<close> keeps exactly the items whose id is not the string coercion of its
  argument, in their order, so that no item with that id remains; when no item has that
  id, the collection is unchanged.
\<close>

theorem remove_canonical:
  assumes "pending p = []"
  shows "watchlistItems (operation (RemoveFromWatchlist x) p)
           = filter (\<lambda>item. item_id item \<noteq> Str (js_String x)) (watchlistItems p)
    \<and> \<not> isInWatchlist (watchlistItems (operation (RemoveFromWatchlist x) p)) x
    \<and> (\<not> isInWatchlist (watchlistItems p) x \<longrightarrow>
          watchlistItems (operation (RemoveFromWatchlist x) p) = watchlistItems p)"
proof -
  have r: "watchlistItems (operation (RemoveFromWatchlist x) p)
           = filter (\<lambda>item. item_id item \<noteq> Str (js_String x)) (watchlistItems p)"
    using assms by (rule remove_memory)
  have gone: "\<not> isInWatchlist (watchlistItems (operation (RemoveFromWatchlist x) p)) x"
    unfolding r by (simp add: isInWatchlist_def list_ex_iff)
  have same: "watchlistItems (operation (RemoveFromWatchlist x) p) = watchlistItems p"
    if "\<not> isInWatchlist (watchlistItems p) x"
    using that unfolding r by (simp add: isInWatchlist_def list_ex_iff filter_id_conv)
  from r gone same show ?thesis by blast
qed

theorem remove_canonical_witness:
  "pending (mount (stored payload_42)) = []
   \<and> watchlistItems (operation (RemoveFromWatchlist (Num 42)) (mount (stored payload_42))) = []
   \<and> \<not> isInWatchlist (watchlistItems (mount (stored payload_42))) (Num 7)
   \<and> watchlistItems (operation (RemoveFromWatchlist (Num 7)) (mount (stored payload_42)))
       = watchlistItems (mount (stored payload_42))"
proof -
  have p: "pending (mount (stored payload_42)) = []" by (rule mount_memory)
  have f: "filter (\<lambda>item. item_id item \<noteq> Str (js_String (Num 42))) (watchlistItems (mount (stored payload_42))) = []"
    by code_simp
  have a: "\<not> isInWatchlist (watchlistItems (mount (stored payload_42))) (Num 7)"
    by code_simp
  from remove_canonical [OF p, of "Num 42", unfolded f] remove_canonical [OF p, of "Num 7"] a p
  show ?thesis by blast
qed

end
